theory Spec2Isabelle
  imports Complex_Main
begin

section \<open>Exceptions and values\<close>

text \<open>
  The Python exceptions the program can raise. The three \<^verbatim>\<open>ValueError\<close>s of the source
  carry a message only; the model keeps what the message is about. The fourth is the
  one \<^verbatim>\<open>time.sleep\<close> raises for a negative length.
\<close>

datatype valerr =
    NoSuchMonitor int
  | UnreadableTemplate string
  | MissingConfigKey string
  | NegativeSleep

datatype exn =
    ValueError valerr
  | KeyError string
  | IndexError
  | TypeError
  | OSError
  | CvError
  | TimeoutError

text \<open>
  An image as far as the program looks at it: \<^verbatim>\<open>template.shape[:2]\<close> is (height, width);
  the pixels are only handed to OpenCV.
\<close>

record image =
  height :: int
  width :: int
  pixels :: "nat list"

section \<open>Screen capture and element location (module level)\<close>

text \<open>
  Python's \<^verbatim>\<open>xs[i]\<close> on a list: a negative index counts from the end, and an index
  outside \<^verbatim>\<open>-len(xs) .. len(xs)-1\<close> raises IndexError.
\<close>

definition getitem :: "'a list \<Rightarrow> int \<Rightarrow> exn + 'a" where
  "getitem xs i =
     (if 0 \<le> i \<and> i < int (length xs) then Inr (xs ! nat i)
      else if i < 0 \<and> - int (length xs) \<le> i then Inr (xs ! nat (int (length xs) + i))
      else Inl IndexError)"

text \<open>
  \<^verbatim>\<open>capture_screen(monitor_id)\<close>. The list \<open>monitors\<close> holds, for each entry of
  \<^verbatim>\<open>sct.monitors\<close>, the picture \<^verbatim>\<open>sct.grab\<close> takes of it.
\<close>

definition capture_screen :: "image list \<Rightarrow> int \<Rightarrow> exn + image" where
  "capture_screen monitors monitor_id =
     (if monitor_id \<ge> int (length monitors)
      then Inl (ValueError (NoSuchMonitor monitor_id))
      else getitem monitors monitor_id)"

text \<open>
  What one call of \<^verbatim>\<open>check_element_exist\<close> finds outside the program: the displays,
  the template files (\<^verbatim>\<open>cv2.imread\<close> gives None for an unreadable file), and OpenCV's
  \<^verbatim>\<open>matchTemplate\<close> followed by \<^verbatim>\<open>minMaxLoc\<close>, which yields the best score and its
  offset or raises. Scores and thresholds are finite floats, compared as the reals they
  denote.
\<close>

record optics =
  monitors :: "image list"
  imread :: "string \<Rightarrow> image option"
  matchTemplate :: "image \<Rightarrow> image \<Rightarrow> exn + (real \<times> (int \<times> int))"

definition default_confidence :: real where
  "default_confidence = 8 / 10"

definition check_element_exist ::
  "optics \<Rightarrow> string \<Rightarrow> real \<Rightarrow> exn + (bool \<times> (int \<times> int) option)" where
  "check_element_exist v image_path confidence =
     (case capture_screen (monitors v) 1 of
        Inl e \<Rightarrow> Inl e
      | Inr screenshot \<Rightarrow>
          (case imread v image_path of
             None \<Rightarrow> Inl (ValueError (UnreadableTemplate image_path))
           | Some template \<Rightarrow>
               (case matchTemplate v screenshot template of
                  Inl e \<Rightarrow> Inl e
                | Inr (max_val, max_loc) \<Rightarrow>
                    if max_val \<ge> confidence
                    then
                      (let h = height template; w = width template;
                           center_x = fst max_loc + w div 2;
                           center_y = snd max_loc + h div 2
                       in Inr (True, Some (center_x, center_y)))
                    else Inr (False, None))))"

section \<open>Configuration\<close>

text \<open>
  The configuration is a Python dict with string keys; its values are strings, numbers
  of seconds, key lists and nested dicts. \<^verbatim>\<open>d[k]\<close> raises KeyError for a missing key
  and TypeError when \<open>d\<close> is not a dict.
\<close>

datatype cfg =
    CStr string
  | CNum nat
  | CKeys "string list"
  | CDict "(string \<times> cfg) list"

type_synonym config = "(string \<times> cfg) list"

definition lookup :: "config \<Rightarrow> string \<Rightarrow> exn + cfg" where
  "lookup d k = (case map_of d k of None \<Rightarrow> Inl (KeyError k) | Some v \<Rightarrow> Inr v)"

definition lookup2 :: "config \<Rightarrow> string \<Rightarrow> string \<Rightarrow> exn + cfg" where
  "lookup2 d k1 k2 =
     (case lookup d k1 of
        Inl e \<Rightarrow> Inl e
      | Inr (CDict d') \<Rightarrow> lookup d' k2
      | Inr _ \<Rightarrow> Inl TypeError)"

definition required_keys :: "string list" where
  "required_keys = [''hotkeys'', ''wait_timeouts'', ''ui_elements'']"

text \<open>\<^verbatim>\<open>validate_config\<close>: the loop over the required keys, raising at the first missing one.\<close>

fun validate_keys :: "string list \<Rightarrow> config \<Rightarrow> exn + unit" where
  "validate_keys [] c = Inr ()"
| "validate_keys (key # keys) c =
     (if map_of c key = None then Inl (ValueError (MissingConfigKey key))
      else validate_keys keys c)"

definition validate_config :: "config \<Rightarrow> exn + unit" where
  "validate_config c = validate_keys required_keys c"

section \<open>The world outside the program\<close>

text \<open>
  The program acts on a desktop it does not control. Its runs are modelled by explicit
  state passing over a \<open>world\<close>: the answers the outside gives (which operating system,
  what each screen capture sees, how long a capture takes, whether a call that activates
  the window goes through, whether any other operating-system call goes through, which
  files exist), the counters that select the next answer, a clock in milliseconds, and
  the trace of everything the program did.
  Synthetic input (pyautogui), the clipboard, logging and sleeping do not raise.
\<close>

datatype system = Darwin | Windows | Linux

datatype level = Info | Warning | Error

datatype gesture =
    KeyDown string
  | KeyUp string
  | Press string
  | Hotkey "string list"
  | Typewrite string
  | Click "(int \<times> int) option"

datatype oscall =
    RunShell cfg
  | RunProgram string cfg
  | GetAllTitles
  | ActivateApp
  | RaiseWindow cfg
  | ActivateWindow cfg
  | Pbpaste

datatype event =
    Log level string
  | LogExc level string exn
  | Input gesture
  | Copy string
  | Capture nat
  | Os oscall bool

record world =
  platform :: system
  view :: "nat \<Rightarrow> optics"
  latency :: "nat \<Rightarrow> nat"
  window_ok :: "nat \<Rightarrow> bool"
  os_ok :: "nat \<Rightarrow> bool"
  path_exists :: "string \<Rightarrow> bool"
  captures :: nat
  window_calls :: nat
  os_calls :: nat
  clock :: nat
  trace :: "event list"

type_synonym 'a prog = "world \<Rightarrow> (exn + 'a) \<times> world"

definition ret :: "'a \<Rightarrow> 'a prog" where
  "ret x w = (Inr x, w)"

definition raise :: "exn \<Rightarrow> 'a prog" where
  "raise e w = (Inl e, w)"

definition lift :: "exn + 'a \<Rightarrow> 'a prog" where
  "lift r w = (r, w)"

definition bindE :: "'a prog \<Rightarrow> ('a \<Rightarrow> 'b prog) \<Rightarrow> 'b prog" where
  "bindE m f w = (case m w of (Inl e, w') \<Rightarrow> (Inl e, w') | (Inr x, w') \<Rightarrow> f x w')"

definition seqE :: "'a prog \<Rightarrow> 'b prog \<Rightarrow> 'b prog" where
  "seqE m n = bindE m (\<lambda>_. n)"

text \<open>\<^verbatim>\<open>try: m except Exception as e: h(e)\<close>\<close>

definition try_except :: "'a prog \<Rightarrow> (exn \<Rightarrow> 'a prog) \<Rightarrow> 'a prog" where
  "try_except m h w = (case m w of (Inl e, w') \<Rightarrow> h e w' | (Inr x, w') \<Rightarrow> (Inr x, w'))"

fun seqs :: "unit prog list \<Rightarrow> unit prog" where
  "seqs [] = ret ()"
| "seqs (m # ms) = seqE m (seqs ms)"

text \<open>A call whose result the caller drops.\<close>

definition discard :: "'a prog \<Rightarrow> unit prog" where
  "discard m = bindE m (\<lambda>_. ret ())"

definition emit :: "event \<Rightarrow> unit prog" where
  "emit e w = (Inr (), w\<lparr>trace := trace w @ [e]\<rparr>)"

definition log :: "level \<Rightarrow> string \<Rightarrow> unit prog" where
  "log lv msg = emit (Log lv msg)"

definition logexc :: "level \<Rightarrow> string \<Rightarrow> exn \<Rightarrow> unit prog" where
  "logexc lv msg e = emit (LogExc lv msg e)"

definition pyautogui :: "gesture \<Rightarrow> unit prog" where
  "pyautogui g = emit (Input g)"

definition pyperclip_copy :: "string \<Rightarrow> unit prog" where
  "pyperclip_copy s = emit (Copy s)"

text \<open>\<^verbatim>\<open>time.sleep\<close>, in milliseconds.\<close>

definition sleep :: "nat \<Rightarrow> unit prog" where
  "sleep ms w = (Inr (), w\<lparr>clock := clock w + ms\<rparr>)"

text \<open>
  \<^verbatim>\<open>time.sleep(secs)\<close> for a whole number of seconds given by the caller: a negative
  length raises ValueError.
\<close>

definition time_sleep :: "int \<Rightarrow> unit prog" where
  "time_sleep secs =
     (if secs < 0 then raise (ValueError NegativeSleep) else sleep (1000 * nat secs))"

definition time_time :: "nat prog" where
  "time_time w = (Inr (clock w), w)"

definition platform_system :: "system prog" where
  "platform_system w = (Inr (platform w), w)"

definition os_path_exists :: "string \<Rightarrow> bool prog" where
  "os_path_exists p w = (Inr (path_exists w p), w)"

text \<open>
  Any other call into the operating system (\<^verbatim>\<open>subprocess.run\<close> of the editor and of
  \<^verbatim>\<open>pbpaste\<close>): the world says whether the call with this running number raises.
\<close>

definition os_call :: "oscall \<Rightarrow> unit prog" where
  "os_call c w =
     (let k = os_calls w;
          w' = w\<lparr>os_calls := Suc k, trace := trace w @ [Os c (os_ok w k)]\<rparr>
      in (if os_ok w k then Inr () else Inl OSError, w'))"

text \<open>
  A call that serves to activate the target window (pygetwindow, and on macOS the
  \<^verbatim>\<open>osascript\<close> runs of \<^verbatim>\<open>focus_window\<close>): the world says whether the call with this
  running number raises.
\<close>

definition window_call :: "oscall \<Rightarrow> unit prog" where
  "window_call c w =
     (let k = window_calls w;
          w' = w\<lparr>window_calls := Suc k, trace := trace w @ [Os c (window_ok w k)]\<rparr>
      in (if window_ok w k then Inr () else Inl OSError, w'))"

definition ctrl_key :: "system \<Rightarrow> string" where
  "ctrl_key s = (if s = Darwin then ''command'' else ''ctrl'')"

text \<open>
  Values of the wrong type raise where they are used; which exception class is
  immaterial, since every handler of the program catches \<^verbatim>\<open>Exception\<close>.
\<close>

definition as_num :: "cfg \<Rightarrow> exn + nat" where
  "as_num v = (case v of CNum n \<Rightarrow> Inr n | _ \<Rightarrow> Inl TypeError)"

definition as_keys :: "cfg \<Rightarrow> exn + string list" where
  "as_keys v = (case v of CKeys ks \<Rightarrow> Inr ks | _ \<Rightarrow> Inl TypeError)"

text \<open>\<^verbatim>\<open>time.sleep(v)\<close> for a configured number of seconds.\<close>

definition sleep_cfg :: "cfg \<Rightarrow> unit prog" where
  "sleep_cfg v = bindE (lift (as_num v)) (\<lambda>n. sleep (1000 * n))"

text \<open>
  What a call \<^verbatim>\<open>check_element_exist(image_path)\<close> of the module-level function, with
  its default confidence, returns or raises when the screen is \<open>v\<close>. A path that is not a
  string makes \<^verbatim>\<open>cv2.imread\<close> raise, after the capture.
\<close>

definition attempt :: "optics \<Rightarrow> cfg \<Rightarrow> exn + (bool \<times> (int \<times> int) option)" where
  "attempt v image_path =
     (case image_path of
        CStr p \<Rightarrow> check_element_exist v p default_confidence
      | _ \<Rightarrow> (case capture_screen (monitors v) 1 of
                Inl e \<Rightarrow> Inl e | Inr _ \<Rightarrow> Inl TypeError))"

text \<open>The call itself, at the world's next capture.\<close>

definition locate :: "cfg \<Rightarrow> (bool \<times> (int \<times> int) option) prog" where
  "locate image_path w =
     (let k = captures w;
          w' = w\<lparr>captures := Suc k, clock := clock w + latency w k,
                 trace := trace w @ [Capture k]\<rparr>
      in (attempt (view w k) image_path, w'))"

text \<open>Whether an outcome of the call says that the element is on the screen.\<close>

definition found :: "exn + (bool \<times> (int \<times> int) option) \<Rightarrow> bool" where
  "found r = (case r of Inr (exist, pos) \<Rightarrow> exist | Inl e \<Rightarrow> False)"

section \<open>BaseUIAutomator\<close>

record automator =
  config :: config

text \<open>
  \<^verbatim>\<open>safe_click(image_path, retry)\<close>: the loop \<^verbatim>\<open>for _ in range(retry)\<close>, by the number of
  rounds left.
\<close>

fun safe_click_loop :: "nat \<Rightarrow> cfg \<Rightarrow> bool prog" where
  "safe_click_loop 0 image_path =
     seqE (log Error ''target image not found'') (ret False)"
| "safe_click_loop (Suc n) image_path =
     bindE
       (try_except
          (bindE (locate image_path) (\<lambda>(exist, pos).
             if exist then seqE (pyautogui (Click pos)) (ret True) else ret False))
          (\<lambda>e. seqE (logexc Warning ''error while locating the image'' e) (ret False)))
       (\<lambda>clicked. if clicked then ret True
          else seqE (sleep 1000) (safe_click_loop n image_path))"

definition safe_click :: "cfg \<Rightarrow> int \<Rightarrow> bool prog" where
  "safe_click image_path retry = safe_click_loop (nat retry) image_path"

text \<open>The method \<^verbatim>\<open>check_element_exist(image_path, retry, interval)\<close>.\<close>

fun check_loop :: "nat \<Rightarrow> cfg \<Rightarrow> int \<Rightarrow> bool prog" where
  "check_loop 0 image_path interval = ret False"
| "check_loop (Suc n) image_path interval =
     bindE
       (try_except
          (bindE (locate image_path) (\<lambda>(exist, pos). ret exist))
          (\<lambda>e. seqE (logexc Warning ''element does not exist'' e) (ret False)))
       (\<lambda>exist. if exist then ret True
          else seqE (time_sleep interval) (check_loop n image_path interval))"

definition BaseUIAutomator_check_element_exist :: "cfg \<Rightarrow> int \<Rightarrow> int \<Rightarrow> bool prog" where
  "BaseUIAutomator_check_element_exist image_path retry interval =
     check_loop (nat retry) image_path interval"

definition input_text :: "string \<Rightarrow> string \<Rightarrow> unit prog" where
  "input_text text' lang =
     bindE platform_system (\<lambda>s.
       seqE
         (if lang = ''zh'' \<or> s = Darwin
          then seqs [pyperclip_copy text', sleep 500,
                     pyautogui (KeyDown (ctrl_key s)), sleep 500,
                     pyautogui (Press ''v''), sleep 500,
                     pyautogui (KeyUp (ctrl_key s)), sleep 500]
          else pyautogui (Typewrite text'))
         (sleep 500))"

text \<open>\<^verbatim>\<open>_hotkey(keys_list)\<close>; \<^verbatim>\<open>keys.pop(0)\<close> raises IndexError on an empty list.\<close>

definition self_hotkey :: "cfg \<Rightarrow> unit prog" where
  "self_hotkey keys_list =
     bindE (lift (as_keys keys_list)) (\<lambda>ks.
       case ks of
         [] \<Rightarrow> raise IndexError
       | first_key # keys \<Rightarrow>
           bindE platform_system (\<lambda>s.
             if s = Darwin
             then seqs [pyautogui (KeyDown first_key), sleep 500,
                        seqs (map (\<lambda>key. seqs [pyautogui (KeyDown key), sleep 300,
                                                pyautogui (KeyUp key), sleep 300]) keys),
                        sleep 500, pyautogui (KeyUp first_key), sleep 500]
             else seqs [pyautogui (KeyDown first_key), sleep 1000,
                        seqs (map (\<lambda>key. seqs [pyautogui (Press key), sleep 500]) keys),
                        pyautogui (KeyUp first_key)]))"

section \<open>ComposerAutomator\<close>

text \<open>
  \<^verbatim>\<open>__init__\<close>: the base class stores the configuration and sets up logging, then
  \<^verbatim>\<open>validate_config\<close> runs; an exception leaves no object.
\<close>

definition ComposerAutomator_init :: "config \<Rightarrow> exn + automator" where
  "ComposerAutomator_init c =
     (let self = \<lparr>config = c\<rparr>
      in case validate_config (config self) of Inl e \<Rightarrow> Inl e | Inr _ \<Rightarrow> Inr self)"

definition focus_window :: "automator \<Rightarrow> bool prog" where
  "focus_window self =
     try_except
       (bindE platform_system (\<lambda>s.
          seqE
            (if s = Darwin
             then seqE (seqs [window_call GetAllTitles, window_call ActivateApp, sleep 1000])
                    (bindE (lift (lookup (config self) ''window_title''))
                       (\<lambda>t. window_call (RaiseWindow t)))
             else bindE (lift (lookup (config self) ''window_title''))
                    (\<lambda>t. window_call (ActivateWindow t)))
            (seqE (sleep 1500) (ret True))))
       (\<lambda>e. seqE (logexc Error ''failed to activate the target window'' e) (ret False))"

text \<open>
  The candidate install locations of \<^verbatim>\<open>open_project\<close> (written with forward slashes);
  \<open>path_exists\<close> of the world answers for the expanded path.
\<close>

definition cursor_paths :: "string list" where
  "cursor_paths =
     [''C:/Program Files/Cursor/Cursor.exe'',
      ''C:/Users/%USERNAME%/AppData/Local/Programs/Cursor/Cursor.exe'']"

fun find_cursor :: "automator \<Rightarrow> string list \<Rightarrow> unit prog" where
  "find_cursor self [] = log Error ''Cursor executable not found''"
| "find_cursor self (path # paths) =
     bindE (os_path_exists path) (\<lambda>there.
       if there
       then bindE (lift (lookup (config self) ''project_path''))
              (\<lambda>p. os_call (RunProgram path p))
       else find_cursor self paths)"

definition open_project :: "automator \<Rightarrow> unit prog" where
  "open_project self =
     seqE
       (bindE platform_system (\<lambda>s.
          if s = Windows
          then try_except
                 (bindE (lift (lookup (config self) ''project_path''))
                    (\<lambda>p. os_call (RunShell p)))
                 (\<lambda>e. seqE (logexc Warning ''opening the project through the shell failed'' e)
                        (find_cursor self cursor_paths))
          else bindE (lift (lookup (config self) ''project_path''))
                 (\<lambda>p. os_call (RunProgram ''cursor'' p))))
       (sleep 2000)"

text \<open>\<^verbatim>\<open>open_composer\<close>: the loop \<^verbatim>\<open>while retry > 0\<close>, by the value of \<open>retry\<close>.\<close>

fun open_composer_loop :: "automator \<Rightarrow> nat \<Rightarrow> bool prog" where
  "open_composer_loop self 0 =
     seqE (log Warning ''opening Composer failed, manual intervention may be needed'')
       (ret False)"
| "open_composer_loop self (Suc retry) =
     bindE (lift (lookup2 (config self) ''ui_elements'' ''agent_mode'')) (\<lambda>p.
     bindE (BaseUIAutomator_check_element_exist p 1 1) (\<lambda>shown.
       if shown then seqE (log Info ''Composer opened'') (ret True)
       else seqE
              (seqs [log Info ''Composer not detected, retrying'',
                     discard (focus_window self),
                     bindE (lift (lookup2 (config self) ''hotkeys'' ''open_composer''))
                       self_hotkey,
                     bindE (lift (lookup2 (config self) ''wait_timeouts'' ''after_open''))
                       sleep_cfg])
              (open_composer_loop self retry)))"

definition open_composer :: "automator \<Rightarrow> bool prog" where
  "open_composer self =
     seqE
       (seqs [log Info ''opening Composer'',
              discard (focus_window self),
              bindE (lift (lookup2 (config self) ''hotkeys'' ''open_composer'')) self_hotkey,
              bindE (lift (lookup2 (config self) ''wait_timeouts'' ''after_open'')) sleep_cfg])
       (open_composer_loop self 3)"

definition new_session :: "automator \<Rightarrow> bool prog" where
  "new_session self =
     seqE
       (seqs [log Info ''creating a new session'',
              discard (focus_window self), sleep 1000,
              bindE (lift (lookup2 (config self) ''hotkeys'' ''new_session'')) self_hotkey,
              sleep 1000,
              discard (focus_window self), sleep 1000,
              bindE platform_system (\<lambda>s.
                pyautogui (Hotkey (if s = Darwin then [''command'', ''a'']
                                   else [''ctrl'', ''a'']))),
              sleep 500,
              pyautogui (Press ''delete''), sleep 500,
              pyautogui (Press ''delete''), sleep 500,
              log Info ''new session created''])
       (ret True)"

text \<open>The body of the loop of \<^verbatim>\<open>link_files\<close>, for one path.\<close>

definition link_file :: "automator \<Rightarrow> string \<Rightarrow> unit prog" where
  "link_file self path =
     seqs [log Info ''linking a file'',
           pyautogui (Press '' ''), sleep 300,
           pyautogui (Press ''@''), sleep 500,
           bindE platform_system (\<lambda>s.
             if s = Darwin
             then seqs [pyperclip_copy path, sleep 300,
                        os_call Pbpaste,
                        log Info ''clipboard content'',
                        pyautogui (KeyDown ''command''), sleep 300,
                        pyautogui (KeyDown ''v''), sleep 300,
                        pyautogui (KeyUp ''v''), sleep 300,
                        pyautogui (KeyUp ''command''), sleep 500]
             else seqs [pyperclip_copy path, sleep 500,
                        pyautogui (Hotkey [''ctrl'', ''v''])]),
           sleep 1000,
           pyautogui (Press ''enter''), sleep 500,
           bindE (lift (lookup2 (config self) ''wait_timeouts'' ''per_file'')) sleep_cfg]"

definition link_files :: "automator \<Rightarrow> string list \<Rightarrow> unit prog" where
  "link_files self file_paths =
     seqs [log Info ''linking files'',
           discard (focus_window self), sleep 1000,
           seqs (map (link_file self) file_paths)]"

definition send_message :: "automator \<Rightarrow> bool prog" where
  "send_message self =
     seqE (log Info ''clicking the send button'')
       (bindE (lift (lookup2 (config self) ''ui_elements'' ''send_button'')) (\<lambda>p.
        bindE (safe_click p 3) (\<lambda>clicked.
          if clicked then seqE (log Info ''send button clicked'') (ret True)
          else seqE
                 (seqs [log Info ''trying to send with the hotkey'',
                        bindE platform_system (\<lambda>s.
                          pyautogui (Hotkey (if s = Darwin then [''command'', ''enter'']
                                             else [''ctrl'', ''enter'']))),
                        sleep 500])
                 (ret True))))"

definition input_prompt :: "automator \<Rightarrow> string \<Rightarrow> unit prog" where
  "input_prompt self prompt =
     seqs [log Info ''entering the prompt'',
           input_text prompt ''zh'', sleep 500,
           discard (send_message self)]"

definition accept_changes :: "bool prog" where
  "accept_changes =
     bindE platform_system (\<lambda>s.
       seqE (seqs [pyautogui (Hotkey [ctrl_key s, ''enter'']), sleep 500]) (ret True))"

text \<open>
  The body of the loop of \<^verbatim>\<open>wait_execution\<close>, one round: \<open>None\<close> when the loop goes
  round again, \<open>Some r\<close> when the method returns \<open>r\<close>.
\<close>

definition poll_once :: "automator \<Rightarrow> bool option prog" where
  "poll_once self =
     try_except
       (bindE (lift (lookup2 (config self) ''ui_elements'' ''generating'')) (\<lambda>p.
        bindE (BaseUIAutomator_check_element_exist p 3 2) (\<lambda>busy.
          if busy then seqE (sleep 5000) (ret None)
          else seqE (log Info ''execution finished'') (ret (Some True)))))
       (\<lambda>e. seqE (logexc Error ''waiting for the execution failed'' e) (ret (Some False)))"

text \<open>
  The clock never runs backwards, and a round of the polling loop that goes round again
  has slept five seconds: this is what makes the loop of \<^verbatim>\<open>wait_execution\<close> end.
\<close>

lemma locate_clock: "locate p w = (r, w') \<Longrightarrow> clock w \<le> clock w'"
  by (auto simp: locate_def Let_def)

lemma check_loop_clock: "check_loop n p i w = (r, w') \<Longrightarrow> clock w \<le> clock w'"
proof (induction n arbitrary: w r w')
  case 0
  then show ?case by (simp add: ret_def)
next
  case (Suc n)
  obtain r1 w1 where l: "locate p w = (r1, w1)" by (cases "locate p w")
  from locate_clock[OF l] have c1: "clock w \<le> clock w1" .
  from Suc.prems l show ?case
    using c1 Suc.IH
    by (fastforce simp: bindE_def try_except_def seqE_def ret_def raise_def logexc_def emit_def
                  sleep_def time_sleep_def
                split: sum.splits prod.splits if_splits)
qed

lemma poll_once_again:
  assumes "poll_once self w = (Inr None, w')"
  shows "clock w + 5000 \<le> clock w'"
proof -
  have "\<And>p x w1. BaseUIAutomator_check_element_exist p 3 2 w = (x, w1) \<Longrightarrow> clock w \<le> clock w1"
    unfolding BaseUIAutomator_check_element_exist_def by (rule check_loop_clock)
  with assms show ?thesis
    by (fastforce simp: poll_once_def bindE_def try_except_def seqE_def ret_def lift_def
          logexc_def log_def emit_def sleep_def
          split: sum.splits prod.splits if_splits)
qed

text \<open>
  The loop \<^verbatim>\<open>while time.time() - start < timeout\<close> of \<^verbatim>\<open>wait_execution\<close>, and the
  \<^verbatim>\<open>raise TimeoutError\<close> behind it; \<open>timeout\<close> is in seconds.
\<close>

function wait_loop :: "automator \<Rightarrow> nat \<Rightarrow> nat \<Rightarrow> bool prog" where
  "wait_loop self start timeout w =
     (if int (clock w) - int start < int (1000 * timeout)
      then (case poll_once self w of
              (Inl e, w') \<Rightarrow> (Inl e, w')
            | (Inr (Some r), w') \<Rightarrow> (Inr r, w')
            | (Inr None, w') \<Rightarrow> wait_loop self start timeout w')
      else (Inl TimeoutError, w))"
  by pat_completeness auto
termination
proof (relation "measure (\<lambda>(self, start, timeout, w). start + 1000 * timeout - clock w)")
  show "wf (measure (\<lambda>(self, start, timeout, w). start + 1000 * timeout - clock w))" by simp
next
  fix self start timeout w x1 x2 x2a
  assume a: "int (clock w) - int start < int (1000 * timeout)"
     and b: "(x1, x2) = poll_once self w" and c: "x1 = Inr x2a" and d: "x2a = None"
  from b c d have "poll_once self w = (Inr None, x2)" by simp
  from poll_once_again[OF this] a
  show "((self, start, timeout, x2), (self, start, timeout, w))
        \<in> measure (\<lambda>(self, start, timeout, w). start + 1000 * timeout - clock w)"
    by simp
qed

declare wait_loop.simps [simp del]

text \<open>
  \<^verbatim>\<open>wait_execution(timeout)\<close>; its first line \<^verbatim>\<open>timeout or config[...]\<close> takes the
  configured value when the argument is None or 0.
\<close>

definition timeout_or_config :: "automator \<Rightarrow> nat option \<Rightarrow> exn + nat" where
  "timeout_or_config self timeout =
     (case timeout of
        Some t \<Rightarrow>
          if t \<noteq> 0 then Inr t
          else (case lookup2 (config self) ''wait_timeouts'' ''execution'' of
                  Inl e \<Rightarrow> Inl e | Inr v \<Rightarrow> as_num v)
      | None \<Rightarrow>
          (case lookup2 (config self) ''wait_timeouts'' ''execution'' of
             Inl e \<Rightarrow> Inl e | Inr v \<Rightarrow> as_num v))"

definition wait_execution :: "automator \<Rightarrow> nat option \<Rightarrow> bool prog" where
  "wait_execution self timeout =
     bindE (lift (timeout_or_config self timeout)) (\<lambda>timeout'.
     bindE time_time (\<lambda>start. wait_loop self start timeout'))"

definition execute_workflow :: "automator \<Rightarrow> string \<Rightarrow> string list \<Rightarrow> bool prog" where
  "execute_workflow self task files =
     try_except
       (seqE (seqs [log Info ''starting the workflow'', open_project self, sleep 3000])
       (bindE (focus_window self) (\<lambda>success.
          if \<not> success
          then seqE (log Error ''cannot get the window focus, workflow aborted'') (ret False)
          else
            seqE (log Info ''step 1: open Composer'')
            (bindE (open_composer self) (\<lambda>composer_opened.
               if \<not> composer_opened
               then seqE (log Error ''cannot open Composer, workflow aborted'') (ret False)
               else
                 seqE (seqs [sleep 1000,
                             log Info ''step 2: new session'',
                             discard (new_session self), sleep 1000,
                             log Info ''step 3: link files'',
                             link_files self files])
                   (if task \<noteq> []
                    then seqE (seqs [log Info ''step 4: enter the task prompt'',
                                     discard (focus_window self), sleep 1000,
                                     input_prompt self task,
                                     log Info ''step 5: wait for completion'',
                                     discard (wait_execution self None),
                                     log Info ''step 6: accept changes''])
                           accept_changes
                    else ret True))))))
       (\<lambda>e. seqE (seqs [logexc Error ''workflow failed'' e, log Error ''traceback''])
              (ret False))"

text \<open>
  The script's entry: build the automator from a configuration, then run the workflow.
  An exception of the constructor ends the script.
\<close>

definition main :: "config \<Rightarrow> string \<Rightarrow> string list \<Rightarrow> bool prog" where
  "main c task files =
     bindE (lift (ComposerAutomator_init c))
       (\<lambda>automator. execute_workflow automator task files)"

section \<open>Worlds after an attempt\<close>

text \<open>
  The world after one capture, and the world after one attempt of a retry loop that did
  not find the element: the capture, the warning when the attempt raised, the pause.
\<close>

definition captured :: "world \<Rightarrow> world" where
  "captured w =
     w\<lparr>captures := Suc (captures w), clock := clock w + latency w (captures w),
       trace := trace w @ [Capture (captures w)]\<rparr>"

definition failed_attempt :: "world \<Rightarrow> cfg \<Rightarrow> string \<Rightarrow> nat \<Rightarrow> world" where
  "failed_attempt w p msg pause =
     snd (sleep pause
       (snd ((case attempt (view w (captures w)) p of
                Inl e \<Rightarrow> logexc Warning msg e
              | Inr _ \<Rightarrow> ret ()) (captured w))))"

section \<open>The workflow up to the wait\<close>

text \<open>
  The try body of \<^verbatim>\<open>execute_workflow\<close> up to the call of \<^verbatim>\<open>wait_execution\<close>: \<open>Some b\<close>
  when the body has returned \<open>b\<close> before that call, \<open>None\<close> when control stands at the call.
  (That the workflow is this prefix followed by the rest is \<open>execute_workflow_split\<close>.)
\<close>

definition before_wait :: "automator \<Rightarrow> string \<Rightarrow> string list \<Rightarrow> bool option prog" where
  "before_wait self task files =
     seqE (seqs [log Info ''starting the workflow'', open_project self, sleep 3000])
       (bindE (focus_window self) (\<lambda>success.
          if \<not> success
          then seqE (log Error ''cannot get the window focus, workflow aborted'')
                 (ret (Some False))
          else
            seqE (log Info ''step 1: open Composer'')
            (bindE (open_composer self) (\<lambda>composer_opened.
               if \<not> composer_opened
               then seqE (log Error ''cannot open Composer, workflow aborted'')
                      (ret (Some False))
               else
                 seqE (seqs [sleep 1000,
                             log Info ''step 2: new session'',
                             discard (new_session self), sleep 1000,
                             log Info ''step 3: link files'',
                             link_files self files])
                   (if task \<noteq> []
                    then seqE (seqs [log Info ''step 4: enter the task prompt'',
                                     discard (focus_window self), sleep 1000,
                                     input_prompt self task,
                                     log Info ''step 5: wait for completion''])
                           (ret None)
                    else ret (Some True))))))"

text \<open>A program preserves \<open>f\<close> when no run of it changes what \<open>f\<close> reads off the world.\<close>

definition preserves :: "(world \<Rightarrow> 'b) \<Rightarrow> 'a prog \<Rightarrow> bool" where
  "preserves f m = (\<forall>w. f (snd (m w)) = f w)"

named_theorems keeps

text \<open>The synthetic input events of the trace: what has been injected so far.\<close>

definition is_input :: "event \<Rightarrow> bool" where
  "is_input e = (case e of Input g \<Rightarrow> True | _ \<Rightarrow> False)"

definition inputs :: "world \<Rightarrow> event list" where
  "inputs w = filter is_input (trace w)"

text \<open>
  The events a focus attempt leaves in the trace: its window calls and the error it logs
  when one of them raises. \<open>others\<close> is the rest of the trace.
\<close>

definition is_window_call :: "oscall \<Rightarrow> bool" where
  "is_window_call c =
     (case c of GetAllTitles \<Rightarrow> True | ActivateApp \<Rightarrow> True | RaiseWindow t \<Rightarrow> True
      | ActivateWindow t \<Rightarrow> True | _ \<Rightarrow> False)"

definition is_focus_event :: "event \<Rightarrow> bool" where
  "is_focus_event e =
     (case e of
        Os c ok \<Rightarrow> is_window_call c
      | LogExc lv msg ex \<Rightarrow> msg = ''failed to activate the target window''
      | _ \<Rightarrow> False)"

definition others :: "world \<Rightarrow> event list" where
  "others w = filter (\<lambda>e. \<not> is_focus_event e) (trace w)"

text \<open>
  Two worlds are alike when they differ at most in how window activation goes and went:
  in \<open>window_ok\<close>, the number of window calls, the focus attempts' events in the trace,
  and the clock. A program is heedless of window activation when on alike worlds it
  gives the same result and leaves alike worlds.
\<close>

definition alike :: "world \<Rightarrow> world \<Rightarrow> bool" where
  "alike w w' \<longleftrightarrow>
     platform w = platform w' \<and> view w = view w' \<and> latency w = latency w'
     \<and> os_ok w = os_ok w' \<and> path_exists w = path_exists w'
     \<and> captures w = captures w' \<and> os_calls w = os_calls w' \<and> others w = others w'"

definition heedless :: "'a prog \<Rightarrow> bool" where
  "heedless m = (\<forall>w w'. alike w w' \<longrightarrow> fst (m w) = fst (m w') \<and> alike (snd (m w)) (snd (m w')))"

named_theorems heed

text \<open>A program returns when no run of it raises.\<close>

definition returns :: "'a prog \<Rightarrow> bool" where
  "returns m = (\<forall>w. \<exists>x. fst (m w) = Inr x)"

section \<open>Sample inputs\<close>

text \<open>The example configuration of the source, for the platform's control key.\<close>

definition CONFIG :: "system \<Rightarrow> config" where
  "CONFIG s =
     [(''window_title'', CStr ''fastapi-demo''),
      (''project_path'', CStr ''D:/fastapi-demo''),
      (''hotkeys'', CDict [(''open_composer'', CKeys [ctrl_key s, ''i'']),
                           (''new_session'', CKeys [ctrl_key s, ''n''])]),
      (''wait_timeouts'', CDict [(''after_open'', CNum 1), (''per_file'', CNum 1),
                                 (''execution'', CNum 300)]),
      (''ui_elements'', CDict [(''agent_mode'', CStr ''./images/windows/agent_mode.png''),
                               (''send_button'', CStr ''./images/windows/send_button.png''),
                               (''generating'', CStr ''./images/windows/generating.png'')])]"

definition blank :: "int \<Rightarrow> int \<Rightarrow> image" where
  "blank h w = \<lparr>height = h, width = w, pixels = []\<rparr>"

text \<open>
  Two displays, every template file readable as a 31 by 41 picture, and a matcher that
  reports the given best score at offset (100, 200).
\<close>

definition sees :: "real \<Rightarrow> optics" where
  "sees score =
     \<lparr>monitors = [blank 1080 3840, blank 1080 1920],
      imread = (\<lambda>p. Some (blank 31 41)),
      matchTemplate = (\<lambda>screen template. Inr (score, (100, 200)))\<rparr>"

text \<open>
  A desktop on which every window and operating-system call goes through, no candidate
  path exists, each capture takes 200 ms and sees what \<open>v\<close> says.
\<close>

definition desk :: "system \<Rightarrow> (nat \<Rightarrow> optics) \<Rightarrow> world" where
  "desk s v =
     \<lparr>platform = s, view = v, latency = (\<lambda>k. 200), window_ok = (\<lambda>k. True),
      os_ok = (\<lambda>k. True), path_exists = (\<lambda>p. False), captures = 0, window_calls = 0,
      os_calls = 0, clock = 0, trace = []\<rparr>"

text \<open>The example configuration without its \<^verbatim>\<open>wait_timeouts\<close> entry.\<close>

definition no_timeouts :: config where
  "no_timeouts = filter (\<lambda>(k, v). k \<noteq> ''wait_timeouts'') (CONFIG Windows)"


text \<open>
  The example configuration (with the control key written out) without the template of
  the busy indicator; the three required keys are all there.
\<close>

definition no_generating :: config where
  "no_generating =
     [(''window_title'', CStr ''fastapi-demo''),
      (''project_path'', CStr ''D:/fastapi-demo''),
      (''hotkeys'', CDict [(''open_composer'', CKeys [''ctrl'', ''i'']),
                           (''new_session'', CKeys [''ctrl'', ''n''])]),
      (''wait_timeouts'', CDict [(''after_open'', CNum 1), (''per_file'', CNum 1),
                                 (''execution'', CNum 300)]),
      (''ui_elements'', CDict [(''agent_mode'', CStr ''./images/windows/agent_mode.png''),
                               (''send_button'', CStr ''./images/windows/send_button.png'')])]"

text \<open>
  The example configuration (with the control key written out) without the template of
  the send button; the three required keys are all there.
\<close>

definition no_send_button :: config where
  "no_send_button =
     [(''window_title'', CStr ''fastapi-demo''),
      (''project_path'', CStr ''D:/fastapi-demo''),
      (''hotkeys'', CDict [(''open_composer'', CKeys [''ctrl'', ''i'']),
                           (''new_session'', CKeys [''ctrl'', ''n''])]),
      (''wait_timeouts'', CDict [(''after_open'', CNum 1), (''per_file'', CNum 1),
                                 (''execution'', CNum 300)]),
      (''ui_elements'', CDict [(''agent_mode'', CStr ''./images/windows/agent_mode.png''),
                               (''generating'', CStr ''./images/windows/generating.png'')])]"

text \<open>
  Desktops on which the window activates once, at the first attempt, and never again;
  and on which it never activates.
\<close>

definition gate_only :: world where
  "gate_only = (desk Windows (\<lambda>k. sees 1))\<lparr>window_ok := (\<lambda>k. k < 1)\<rparr>"

definition no_window :: world where
  "no_window = (desk Windows (\<lambda>k. sees 1))\<lparr>window_ok := (\<lambda>k. False)\<rparr>"

section \<open>Element location\<close>

text \<open>
  C1. Whenever the capture, the template and the match are there, the locator returns
  found together with the centre, which is the best offset plus half the template's width
  and height (integer halves), exactly when the best score is at least the confidence,
  and returns not found with no coordinate when the score is below it. The workflow's
  calls use the default confidence 0.8.
\<close>

theorem locate_threshold:
  assumes "capture_screen (monitors v) 1 = Inr screenshot"
    and "imread v image_path = Some template"
    and "matchTemplate v screenshot template = Inr (score, loc)"
  shows "(score \<ge> c \<longleftrightarrow>
            check_element_exist v image_path c =
              Inr (True, Some (fst loc + width template div 2, snd loc + height template div 2)))
       \<and> (score < c \<longrightarrow> check_element_exist v image_path c = Inr (False, None))
       \<and> fst (locate (CStr image_path) w) =
            check_element_exist (view w (captures w)) image_path (8 / 10)"
  using assms by (auto simp: check_element_exist_def Let_def locate_def attempt_def default_confidence_def)

theorem locate_threshold_witness:
  "capture_screen (monitors (sees (95 / 100))) 1 = Inr (blank 1080 1920)
   \<and> imread (sees (95 / 100)) ''send.png'' = Some (blank 31 41)
   \<and> matchTemplate (sees (95 / 100)) (blank 1080 1920) (blank 31 41) = Inr (95 / 100, (100, 200))
   \<and> check_element_exist (sees (95 / 100)) ''send.png'' (8 / 10) = Inr (True, Some (120, 215))"
proof -
  have a: "capture_screen (monitors (sees (95 / 100))) 1 = Inr (blank 1080 1920)"
    by (simp add: sees_def capture_screen_def getitem_def)
  have b: "imread (sees (95 / 100)) ''send.png'' = Some (blank 31 41)"
    by (simp add: sees_def)
  have c: "matchTemplate (sees (95 / 100)) (blank 1080 1920) (blank 31 41) = Inr (95 / 100, (100, 200))"
    by (simp add: sees_def)
  from locate_threshold[OF a b c, of "8 / 10"] a b c show ?thesis
    by (simp add: blank_def)
qed

text \<open>The second end-to-end scenario: a best score of 0.5 against the threshold 0.8.\<close>

lemma locate_below_threshold:
  "check_element_exist (sees (5 / 10)) ''send.png'' (8 / 10) = Inr (False, None)"
  by (simp add: check_element_exist_def sees_def capture_screen_def getitem_def)

text \<open>
  C9. Thresholding is monotone in the confidence: on the same capture, a match that is
  found at the threshold \<open>c2\<close> is found, at the same centre, at every lower threshold.
\<close>

theorem threshold_monotone:
  assumes "c1 < c2" and "check_element_exist v image_path c2 = Inr (True, pos)"
  shows "check_element_exist v image_path c1 = Inr (True, pos)"
  using assms
  by (auto simp: check_element_exist_def Let_def split: sum.splits option.splits if_splits)

theorem threshold_monotone_witness:
  "(8 / 10 :: real) < 9 / 10
   \<and> check_element_exist (sees (95 / 100)) ''send.png'' (9 / 10) = Inr (True, Some (120, 215))
   \<and> check_element_exist (sees (95 / 100)) ''send.png'' (8 / 10) = Inr (True, Some (120, 215))"
proof -
  have a: "(8 / 10 :: real) < 9 / 10" by simp
  have b: "check_element_exist (sees (95 / 100)) ''send.png'' (9 / 10) = Inr (True, Some (120, 215))"
    by (simp add: check_element_exist_def sees_def capture_screen_def getitem_def blank_def)
  from threshold_monotone[OF a b] a b show ?thesis by simp
qed

section \<open>Screen capture\<close>

text \<open>
  For an index that is not negative the capture raises its ValueError exactly when the
  index is not below the number of displays, and returns the display otherwise.
\<close>

lemma capture_screen_nonneg:
  "0 \<le> m \<Longrightarrow> capture_screen ms m =
     (if m < int (length ms) then Inr (ms ! nat m) else Inl (ValueError (NoSuchMonitor m)))"
  by (simp add: capture_screen_def getitem_def Let_def)

text \<open>
  C8. The range check of the capture looks at the upper end only. The index -1 is not
  refused: the capture returns the last display. An index below minus the number of
  displays leaves the function with the list's IndexError, not with the ValueError of
  the check.
\<close>

theorem capture_screen_negative_index:
  "capture_screen (ms @ [d]) (- 1) = Inr d \<and> capture_screen [d0, d1] (- 3) = Inl IndexError"
  by (simp add: capture_screen_def getitem_def Let_def nth_append)

section \<open>Configuration check\<close>

lemma validate_keys_Inr: "validate_keys ks c = Inr () \<longleftrightarrow> (\<forall>k \<in> set ks. map_of c k \<noteq> None)"
  by (induction ks) auto

lemma validate_keys_Inl:
  "validate_keys ks c = Inl e \<Longrightarrow> \<exists>k \<in> set ks. map_of c k = None \<and> e = ValueError (MissingConfigKey k)"
  by (induction ks) (auto split: if_splits)

text \<open>
  C4. A configuration that lacks one of the required keys makes the constructor raise the
  ValueError naming a missing required key, and the script then ends with the world as it
  was: nothing is captured, no window is touched, no step runs. A configuration with all
  required keys passes the check and yields the automator.
\<close>

theorem missing_key_fails_fast:
  "((\<exists>k \<in> set required_keys. map_of c k = None) \<longrightarrow>
      (\<exists>k \<in> set required_keys. map_of c k = None
         \<and> ComposerAutomator_init c = Inl (ValueError (MissingConfigKey k))
         \<and> main c task files w = (Inl (ValueError (MissingConfigKey k)), w)))
   \<and> ((\<forall>k \<in> set required_keys. map_of c k \<noteq> None) \<longrightarrow>
        validate_config c = Inr () \<and> ComposerAutomator_init c = Inr \<lparr>config = c\<rparr>)"
proof (intro conjI impI)
  assume m: "\<exists>k \<in> set required_keys. map_of c k = None"
  then have "validate_config c \<noteq> Inr ()"
    by (simp add: validate_config_def validate_keys_Inr)
  then obtain e where e: "validate_config c = Inl e"
    by (cases "validate_config c") auto
  then obtain k where k: "k \<in> set required_keys" "map_of c k = None" "e = ValueError (MissingConfigKey k)"
    using validate_keys_Inl[of required_keys c e] by (auto simp: validate_config_def)
  with e show "\<exists>k \<in> set required_keys. map_of c k = None
         \<and> ComposerAutomator_init c = Inl (ValueError (MissingConfigKey k))
         \<and> main c task files w = (Inl (ValueError (MissingConfigKey k)), w)"
    by (auto simp: ComposerAutomator_init_def main_def bindE_def lift_def Let_def)
next
  assume "\<forall>k \<in> set required_keys. map_of c k \<noteq> None"
  then show "validate_config c = Inr ()" by (simp add: validate_config_def validate_keys_Inr)
next
  assume "\<forall>k \<in> set required_keys. map_of c k \<noteq> None"
  then have "validate_config c = Inr ()" by (simp add: validate_config_def validate_keys_Inr)
  then show "ComposerAutomator_init c = Inr \<lparr>config = c\<rparr>"
    by (simp add: ComposerAutomator_init_def Let_def)
qed

theorem missing_key_fails_fast_witness:
  "map_of no_timeouts ''wait_timeouts'' = None
   \<and> main no_timeouts ''build the api'' [] (desk Windows (\<lambda>k. sees (95 / 100))) =
       (Inl (ValueError (MissingConfigKey ''wait_timeouts'')), desk Windows (\<lambda>k. sees (95 / 100)))
   \<and> ComposerAutomator_init (CONFIG Windows) = Inr \<lparr>config = CONFIG Windows\<rparr>"
proof -
  have a: "\<exists>k \<in> set required_keys. map_of no_timeouts k = None"
    by (simp add: required_keys_def no_timeouts_def CONFIG_def)
  have b: "\<forall>k \<in> set required_keys. map_of (CONFIG Windows) k \<noteq> None"
    by (simp add: required_keys_def CONFIG_def)
  have c: "\<forall>k \<in> set required_keys. map_of no_timeouts k = None \<longrightarrow> k = ''wait_timeouts''"
    by (simp add: required_keys_def no_timeouts_def CONFIG_def)
  from missing_key_fails_fast[of no_timeouts "''build the api''" "[]" "desk Windows (\<lambda>k. sees (95 / 100))"] a
  obtain k where k: "k \<in> set required_keys" "map_of no_timeouts k = None"
    "main no_timeouts ''build the api'' [] (desk Windows (\<lambda>k. sees (95 / 100))) =
       (Inl (ValueError (MissingConfigKey k)), desk Windows (\<lambda>k. sees (95 / 100)))"
    by blast
  from k c have "k = ''wait_timeouts''" by blast
  with k missing_key_fails_fast[of "CONFIG Windows"] b show ?thesis by simp
qed

section \<open>Bounded-count retry\<close>

declare check_loop.simps(2) [simp del] safe_click_loop.simps(2) [simp del]




lemma safe_click_hit:
  "attempt (view w (captures w)) p = Inr (True, pos) \<Longrightarrow>
   safe_click_loop (Suc n) p w = (Inr True, (captured w)\<lparr>trace := trace w @ [Capture (captures w), Input (Click pos)]\<rparr>)"
  by (auto simp: safe_click_loop.simps(2) found_def locate_def Let_def bindE_def seqE_def try_except_def ret_def captured_def
         pyautogui_def emit_def
           split: sum.splits prod.splits)

lemma safe_click_miss:
  "\<not> found (attempt (view w (captures w)) p) \<Longrightarrow>
   safe_click_loop (Suc n) p w = safe_click_loop n p (failed_attempt w p ''error while locating the image'' 1000)"
  by (auto simp: check_loop.simps(2) safe_click_loop.simps(2) found_def locate_def Let_def bindE_def seqE_def try_except_def ret_def
             captured_def failed_attempt_def logexc_def emit_def sleep_def
           split: sum.splits prod.splits)

lemma failed_attempt_sel [simp]:
  "view (failed_attempt w p msg pause) = view w"
  "captures (failed_attempt w p msg pause) = Suc (captures w)"
  "latency (failed_attempt w p msg pause) = latency w"
  "platform (failed_attempt w p msg pause) = platform w"
  by (simp_all add: failed_attempt_def captured_def sleep_def logexc_def emit_def ret_def split: sum.splits)

lemma captured_sel [simp]:
  "view (captured w) = view w"
  "captures (captured w) = Suc (captures w)"
  by (simp_all add: captured_def)

lemma shift_first:
  assumes "\<not> hit c"
    and "k < n" and "hit (Suc c + k)" and "\<forall>j<k. \<not> hit (Suc c + j)"
  shows "Suc k < Suc n \<and> hit (c + Suc k) \<and> (\<forall>j<Suc k. \<not> hit (c + j))"
proof -
  have "\<not> hit (c + j)" if "j < Suc k" for j
    using that assms(1,4) by (cases j) simp_all
  with assms show ?thesis by simp
qed

lemma shift_none:
  assumes "\<not> hit c" and "\<forall>j<n. \<not> hit (Suc c + j)"
  shows "\<forall>j<Suc n. \<not> hit (c + j)"
proof (intro allI impI)
  fix j assume "j < Suc n"
  with assms show "\<not> hit (c + j)" by (cases j) simp_all
qed


lemma safe_click_loop_spec:
  "safe_click_loop n p w = (r, w') \<Longrightarrow>
   view w' = view w \<and>
   ((r = Inr True \<and> (\<exists>k<n. \<exists>pos. attempt (view w (captures w + k)) p = Inr (True, pos)
        \<and> (\<forall>j<k. \<not> found (attempt (view w (captures w + j)) p))
        \<and> captures w' = captures w + k + 1
        \<and> last (trace w') = Input (Click pos)))
    \<or> (r = Inr False \<and> (\<forall>j<n. \<not> found (attempt (view w (captures w + j)) p))
        \<and> captures w' = captures w + n))"
proof (induction n arbitrary: w)
  case 0
  then show ?case by (auto simp: ret_def seqE_def bindE_def log_def emit_def)
next
  case (Suc n)
  let ?hit = "\<lambda>j. found (attempt (view w j) p)"
  show ?case
  proof (cases "?hit (captures w)")
    case True
    then obtain pos where pos: "attempt (view w (captures w)) p = Inr (True, pos)"
      by (auto simp: found_def split: sum.splits)
    from safe_click_hit[OF pos] Suc.prems
    have "r = Inr True"
      "w' = (captured w)\<lparr>trace := trace w @ [Capture (captures w), Input (Click pos)]\<rparr>"
      by simp_all
    with pos show ?thesis by (auto intro!: exI[of _ 0])
  next
    case False
    let ?w1 = "failed_attempt w p ''error while locating the image'' 1000"
    from False Suc.prems have "safe_click_loop n p ?w1 = (r, w')" by (simp add: safe_click_miss)
    from Suc.IH[OF this] have v: "view w' = view w"
      and d: "(r = Inr True \<and> (\<exists>k<n. \<exists>pos. attempt (view w (Suc (captures w) + k)) p = Inr (True, pos)
                 \<and> (\<forall>j<k. \<not> ?hit (Suc (captures w) + j))
                 \<and> captures w' = Suc (captures w) + k + 1
                 \<and> last (trace w') = Input (Click pos)))
              \<or> (r = Inr False \<and> (\<forall>j<n. \<not> ?hit (Suc (captures w) + j))
                 \<and> captures w' = Suc (captures w) + n)" by simp_all
    from d show ?thesis
    proof (elim disjE conjE exE)
      fix k pos assume k: "r = Inr True" "k < n"
        "attempt (view w (Suc (captures w) + k)) p = Inr (True, pos)"
        "\<forall>j<k. \<not> ?hit (Suc (captures w) + j)" "captures w' = Suc (captures w) + k + 1"
        "last (trace w') = Input (Click pos)"
      from k(3) have "?hit (Suc (captures w) + k)" by (simp add: found_def)
      from shift_first[of ?hit, OF False k(2) this k(4)] k(1,3,5,6) v
      show ?thesis by (intro conjI disjI1 exI[of _ "Suc k"] exI[of _ pos]) simp_all
    next
      assume a: "r = Inr False" "\<forall>j<n. \<not> ?hit (Suc (captures w) + j)"
        "captures w' = Suc (captures w) + n"
      from shift_none[of ?hit, OF False a(2)] a(1,3) v show ?thesis by simp
    qed
  qed
qed




section \<open>Laws of sequencing, and what programs preserve\<close>

lemma bindE_assoc: "bindE (bindE m f) g = bindE m (\<lambda>x. bindE (f x) g)"
  by (rule ext) (simp add: bindE_def split: prod.splits sum.splits)

lemma bindE_ret: "bindE (ret x) f = f x"
  by (rule ext) (simp add: bindE_def ret_def)



lemma preserves_ret [keeps]: "preserves f (ret x)"
  and preserves_raise [keeps]: "preserves f (raise e)"
  and preserves_lift [keeps]: "preserves f (lift r)"
  and preserves_time [keeps]: "preserves f time_time"
  and preserves_platform [keeps]: "preserves f platform_system"
  and preserves_exists [keeps]: "preserves f (os_path_exists p)"
  by (simp_all add: preserves_def ret_def raise_def lift_def time_time_def platform_system_def
        os_path_exists_def)

lemma preserves_bindE [keeps]:
  "preserves f m \<Longrightarrow> (\<And>x. preserves f (g x)) \<Longrightarrow> preserves f (bindE m g)"
  by (auto simp: preserves_def bindE_def split: prod.splits sum.splits)
     (metis snd_conv)+

lemma preserves_seqE [keeps]: "preserves f m \<Longrightarrow> preserves f n \<Longrightarrow> preserves f (seqE m n)"
  by (simp add: seqE_def preserves_bindE)

lemma preserves_try [keeps]:
  "preserves f m \<Longrightarrow> (\<And>e. preserves f (h e)) \<Longrightarrow> preserves f (try_except m h)"
  by (auto simp: preserves_def try_except_def split: prod.splits sum.splits)
     (metis snd_conv)+

lemma preserves_discard [keeps]: "preserves f m \<Longrightarrow> preserves f (discard m)"
  by (simp add: discard_def keeps)

lemma preserves_seqs_Nil [keeps]: "preserves f (seqs [])"
  by (simp add: keeps)

lemma preserves_seqs_Cons [keeps]:
  "preserves f m \<Longrightarrow> preserves f (seqs ms) \<Longrightarrow> preserves f (seqs (m # ms))"
  by (simp add: keeps)

lemma preserves_seqs_map [keeps]:
  "(\<And>x. preserves f (g x)) \<Longrightarrow> preserves f (seqs (map g xs))"
  by (induction xs) (simp_all add: keeps)

lemma preserves_if [keeps]:
  "preserves f a \<Longrightarrow> preserves f b \<Longrightarrow> preserves f (if c then a else b)"
  by simp

lemma preserves_case_list [keeps]:
  "preserves f a \<Longrightarrow> (\<And>x xs. preserves f (b x xs)) \<Longrightarrow>
   preserves f (case l of [] \<Rightarrow> a | x # xs \<Rightarrow> b x xs)"
  by (cases l) simp_all

lemma preserves_case_prod [keeps]:
  "(\<And>x y. preserves f (g x y)) \<Longrightarrow> preserves f (case p of (x, y) \<Rightarrow> g x y)"
  by (cases p) simp

text \<open>The view is never changed.\<close>

lemma view_prims [keeps]:
  "preserves view (emit e)" "preserves view (log lv msg)" "preserves view (logexc lv msg ex)"
  "preserves view (pyautogui g)" "preserves view (pyperclip_copy s)" "preserves view (sleep ms)"
  "preserves view (os_call c)" "preserves view (window_call c)" "preserves view (locate p)"
  "preserves view (sleep_cfg v)" "preserves view (time_sleep secs)"
  by (simp_all add: preserves_def emit_def log_def logexc_def pyautogui_def pyperclip_copy_def
        sleep_def os_call_def window_call_def locate_def sleep_cfg_def time_sleep_def raise_def
        bindE_def lift_def Let_def
        split: sum.splits)

lemma view_check_loop [keeps]: "preserves view (check_loop n p i)"
  by (induction n) (simp_all add: check_loop.simps keeps)

lemma view_safe_click_loop [keeps]: "preserves view (safe_click_loop n p)"
  by (induction n) (simp_all add: safe_click_loop.simps keeps)

lemma view_base [keeps]:
  "preserves view (BaseUIAutomator_check_element_exist p r i)"
  "preserves view (safe_click p r)"
  "preserves view (input_text t lang)"
  "preserves view (self_hotkey ks)"
  by (simp_all add: BaseUIAutomator_check_element_exist_def safe_click_def input_text_def
        self_hotkey_def keeps)

lemma view_focus [keeps]: "preserves view (focus_window self)"
  by (simp add: focus_window_def keeps)

lemma view_find_cursor [keeps]: "preserves view (find_cursor self ps)"
  by (induction ps) (simp_all add: keeps)

lemma view_open_composer_loop [keeps]: "preserves view (open_composer_loop self n)"
  by (induction n) (simp_all add: keeps)

lemma view_steps [keeps]:
  "preserves view (open_project self)"
  "preserves view (open_composer self)"
  "preserves view (new_session self)"
  "preserves view (link_file self path)"
  "preserves view (link_files self files)"
  "preserves view (send_message self)"
  "preserves view (input_prompt self prompt)"
  "preserves view accept_changes"
  by (simp_all add: open_project_def open_composer_def new_session_def link_file_def
        link_files_def send_message_def input_prompt_def accept_changes_def keeps)


section \<open>Exceptions in the retry loops\<close>



lemma safe_click_loop_returns: "fst (safe_click_loop n p w) \<in> {Inr True, Inr False}"
  using safe_click_loop_spec[of n p w "fst (safe_click_loop n p w)" "snd (safe_click_loop n p w)"]
  by auto










section \<open>Waiting for completion\<close>





text \<open>Rules that evaluate a run on a sample world.\<close>

lemmas prog_defs = ret_def raise_def lift_def bindE_def seqE_def try_except_def discard_def
  emit_def log_def logexc_def pyautogui_def pyperclip_copy_def sleep_def time_time_def
  platform_system_def os_path_exists_def os_call_def window_call_def time_sleep_def
  sleep_cfg_def as_num_def as_keys_def
  locate_def attempt_def Let_def lookup_def lookup2_def

lemmas step_defs = safe_click_def BaseUIAutomator_check_element_exist_def input_text_def
  self_hotkey_def focus_window_def open_project_def open_composer_def new_session_def
  link_file_def link_files_def send_message_def input_prompt_def accept_changes_def
  poll_once_def wait_execution_def timeout_or_config_def ctrl_key_def
  check_loop.simps safe_click_loop.simps numeral_3_eq_3

lemmas sample_defs = desk_def sees_def blank_def check_element_exist_def capture_screen_def
  getitem_def default_confidence_def CONFIG_def





section \<open>Step order\<close>

text \<open>
  C3. The workflow does not look at what \<^verbatim>\<open>wait_execution\<close> returns. On the desktop
  where everything is found and every window call goes through, with the example
  configuration lacking the template of the busy indicator: steps 1 to 4 succeed, the
  wait of step 5 fails (it logs the KeyError and returns False), and the run goes on to
  step 6, injects the accepting hotkey and returns True.
\<close>

theorem failed_wait_then_accept:
  "execute_workflow \<lparr>config = no_generating\<rparr> ''build the api'' [] (desk Windows (\<lambda>k. sees 1)) =
     (Inr True,
      (desk Windows (\<lambda>k. sees 1))
        \<lparr>captures := 2, window_calls := 6, os_calls := 1, clock := 30400,
          trace :=
            [Log Info ''starting the workflow'',
             Os (RunShell (CStr ''D:/fastapi-demo'')) True,
             Os (ActivateWindow (CStr ''fastapi-demo'')) True,
             Log Info ''step 1: open Composer'', Log Info ''opening Composer'',
             Os (ActivateWindow (CStr ''fastapi-demo'')) True,
             Input (KeyDown ''ctrl''), Input (Press ''i''), Input (KeyUp ''ctrl''),
             Capture 0, Log Info ''Composer opened'', Log Info ''step 2: new session'',
             Log Info ''creating a new session'',
             Os (ActivateWindow (CStr ''fastapi-demo'')) True,
             Input (KeyDown ''ctrl''), Input (Press ''n''), Input (KeyUp ''ctrl''),
             Os (ActivateWindow (CStr ''fastapi-demo'')) True,
             Input (Hotkey [''ctrl'', ''a'']), Input (Press ''delete''),
             Input (Press ''delete''), Log Info ''new session created'',
             Log Info ''step 3: link files'', Log Info ''linking files'',
             Os (ActivateWindow (CStr ''fastapi-demo'')) True,
             Log Info ''step 4: enter the task prompt'',
             Os (ActivateWindow (CStr ''fastapi-demo'')) True,
             Log Info ''entering the prompt'', Copy ''build the api'',
             Input (KeyDown ''ctrl''), Input (Press ''v''), Input (KeyUp ''ctrl''),
             Log Info ''clicking the send button'', Capture 1,
             Input (Click (Some (120, 215))), Log Info ''send button clicked'',
             Log Info ''step 5: wait for completion'',
             LogExc Error ''waiting for the execution failed'' (KeyError ''generating''),
             Log Info ''step 6: accept changes'',
             Input (Hotkey [''ctrl'', ''enter''])]\<rparr>)"
  by (simp add: execute_workflow_def prog_defs step_defs sample_defs no_generating_def
        wait_loop.simps)

section \<open>Window focus\<close>

lemma inputs_prims [keeps]:
  "preserves inputs (log lv msg)" "preserves inputs (logexc lv msg ex)"
  "preserves inputs (sleep ms)" "preserves inputs (os_call c)"
  "preserves inputs (window_call c)" "preserves inputs (sleep_cfg v)"
  by (simp_all add: preserves_def inputs_def is_input_def emit_def log_def logexc_def
        sleep_def os_call_def window_call_def sleep_cfg_def bindE_def lift_def Let_def
        split: sum.splits)

lemma preservesD: "preserves f m \<Longrightarrow> m w = (r, w') \<Longrightarrow> f w' = f w"
  unfolding preserves_def by (metis snd_conv)

lemma inputs_focus: "preserves inputs (focus_window self)"
  by (simp add: focus_window_def keeps)

lemma inputs_find_cursor [keeps]: "preserves inputs (find_cursor self ps)"
  by (induction ps) (simp_all add: keeps)

lemma inputs_open_project: "preserves inputs (open_project self)"
  by (simp add: open_project_def keeps)

lemma seqE_assoc: "seqE (seqE a b) c = seqE a (seqE b c)"
  by (simp add: seqE_def bindE_assoc)

lemma seqE_discard: "seqE (discard m) n = bindE m (\<lambda>_. n)"
  by (simp add: seqE_def discard_def bindE_assoc bindE_ret)

lemma seqE_bindE: "seqE (bindE m f) n = bindE m (\<lambda>x. seqE (f x) n)"
  by (simp add: seqE_def bindE_assoc)

text \<open>Programs heedless of window activation.\<close>

lemma alike_refl: "alike w w"
  and alike_sym: "alike w w' \<Longrightarrow> alike w' w"
  and alike_trans: "alike w w' \<Longrightarrow> alike w' w'' \<Longrightarrow> alike w w''"
  by (simp_all add: alike_def)

lemma heedlessD:
  "heedless m \<Longrightarrow> alike w w' \<Longrightarrow> fst (m w) = fst (m w') \<and> alike (snd (m w)) (snd (m w'))"
  by (simp add: heedless_def)

lemma heed_ret [heed]: "heedless (ret x)"
  and heed_raise [heed]: "heedless (raise e)"
  and heed_lift [heed]: "heedless (lift r)"
  by (simp_all add: heedless_def ret_def raise_def lift_def)

lemma heed_bindE [heed]:
  assumes "heedless m" and "\<And>x. heedless (f x)"
  shows "heedless (bindE m f)"
  unfolding heedless_def
proof (intro allI impI)
  fix w w' assume a: "alike w w'"
  obtain r v where m: "m w = (r, v)" by (cases "m w")
  obtain r' v' where m': "m w' = (r', v')" by (cases "m w'")
  from heedlessD[OF assms(1) a] m m' have e: "r' = r" and b: "alike v v'" by simp_all
  show "fst (bindE m f w) = fst (bindE m f w') \<and> alike (snd (bindE m f w)) (snd (bindE m f w'))"
  proof (cases r)
    case (Inl x)
    with m m' e b show ?thesis by (simp add: bindE_def)
  next
    case (Inr x)
    with m m' e heedlessD[OF assms(2)[of x] b] show ?thesis by (simp add: bindE_def)
  qed
qed

lemma heed_try [heed]:
  assumes "heedless m" and "\<And>e. heedless (h e)"
  shows "heedless (try_except m h)"
  unfolding heedless_def
proof (intro allI impI)
  fix w w' assume a: "alike w w'"
  obtain r v where m: "m w = (r, v)" by (cases "m w")
  obtain r' v' where m': "m w' = (r', v')" by (cases "m w'")
  from heedlessD[OF assms(1) a] m m' have e: "r' = r" and b: "alike v v'" by simp_all
  show "fst (try_except m h w) = fst (try_except m h w')
        \<and> alike (snd (try_except m h w)) (snd (try_except m h w'))"
  proof (cases r)
    case (Inl x)
    with m m' e heedlessD[OF assms(2)[of x] b] show ?thesis by (simp add: try_except_def)
  next
    case (Inr x)
    with m m' e b show ?thesis by (simp add: try_except_def)
  qed
qed

lemma heed_seqE [heed]: "heedless m \<Longrightarrow> heedless n \<Longrightarrow> heedless (seqE m n)"
  by (simp add: seqE_def heed)

lemma heed_discard [heed]: "heedless m \<Longrightarrow> heedless (discard m)"
  by (simp add: discard_def heed)

lemma heed_seqs_Nil [heed]: "heedless (seqs [])"
  by (simp add: heed)

lemma heed_seqs_Cons [heed]: "heedless m \<Longrightarrow> heedless (seqs ms) \<Longrightarrow> heedless (seqs (m # ms))"
  by (simp add: heed)

lemma heed_seqs_map [heed]: "(\<And>x. heedless (g x)) \<Longrightarrow> heedless (seqs (map g xs))"
  by (induction xs) (simp_all add: heed)

lemma heed_if [heed]: "heedless a \<Longrightarrow> heedless b \<Longrightarrow> heedless (if c then a else b)"
  by simp

lemma heed_case_list [heed]:
  "heedless a \<Longrightarrow> (\<And>x xs. heedless (b x xs)) \<Longrightarrow>
   heedless (case l of [] \<Rightarrow> a | x # xs \<Rightarrow> b x xs)"
  by (cases l) simp_all

lemma heed_case_prod [heed]:
  "(\<And>x y. heedless (g x y)) \<Longrightarrow> heedless (case p of (x, y) \<Rightarrow> g x y)"
  by (cases p) simp

lemma heed_prims [heed]:
  "heedless (log lv msg)" "heedless (pyautogui g)" "heedless (pyperclip_copy s)"
  "heedless (sleep ms)" "heedless (time_sleep secs)" "heedless (sleep_cfg v)"
  "heedless platform_system" "heedless (os_path_exists path)" "heedless (locate p)"
  by (simp_all add: heedless_def alike_def others_def is_focus_event_def emit_def log_def
        pyautogui_def pyperclip_copy_def sleep_def time_sleep_def raise_def sleep_cfg_def
        platform_system_def os_path_exists_def locate_def bindE_def lift_def Let_def
        split: sum.splits)

lemma heed_logexc [heed]:
  "msg \<noteq> ''failed to activate the target window'' \<Longrightarrow> heedless (logexc lv msg ex)"
  by (simp add: heedless_def alike_def others_def is_focus_event_def emit_def logexc_def)

lemma heed_os_call [heed]: "\<not> is_window_call c \<Longrightarrow> heedless (os_call c)"
  by (simp add: heedless_def alike_def others_def is_focus_event_def os_call_def Let_def)

lemma heed_check_loop [heed]: "heedless (check_loop n p i)"
  by (induction n) (simp_all add: check_loop.simps heed)

lemma heed_safe_click_loop [heed]: "heedless (safe_click_loop n p)"
  by (induction n) (simp_all add: safe_click_loop.simps heed)

lemma heed_base [heed]:
  "heedless (BaseUIAutomator_check_element_exist p r i)"
  "heedless (safe_click p r)"
  "heedless (input_text t lang)"
  "heedless (self_hotkey ks)"
  by (simp_all add: BaseUIAutomator_check_element_exist_def safe_click_def input_text_def
        self_hotkey_def heed)

lemma heed_find_cursor [heed]: "heedless (find_cursor self ps)"
  by (induction ps) (simp_all add: heed is_window_call_def)

lemma heed_open_project [heed]: "heedless (open_project self)"
  by (simp add: open_project_def heed is_window_call_def)

text \<open>
  A focus attempt returns, and leaves a world like the one it started in: it changes
  nothing but the count of window calls, the clock, and its own events in the trace.
\<close>

lemma focus_window_alike: "alike w (snd (focus_window self w))"
  by (simp add: focus_window_def alike_def others_def is_focus_event_def is_window_call_def
        try_except_def bindE_def seqE_def ret_def lift_def platform_system_def window_call_def
        sleep_def logexc_def emit_def Let_def
        split: sum.splits)

lemma focus_window_returns: "\<exists>b. fst (focus_window self w) = Inr b"
  by (auto simp: focus_window_def
        try_except_def bindE_def seqE_def ret_def lift_def platform_system_def window_call_def
        sleep_def logexc_def emit_def Let_def
        split: sum.splits)

lemma heed_focus [heed]: "heedless (discard (focus_window self))"
  unfolding heedless_def
proof (intro allI impI)
  fix w w' assume a: "alike w w'"
  obtain b v where f: "focus_window self w = (Inr b, v)"
    using focus_window_returns[of self w] by (cases "focus_window self w") auto
  obtain b' v' where f': "focus_window self w' = (Inr b', v')"
    using focus_window_returns[of self w'] by (cases "focus_window self w'") auto
  have "alike v w" using focus_window_alike[of w self] f by (simp add: alike_sym)
  moreover have "alike w' v'" using focus_window_alike[of w' self] f' by simp
  ultimately have "alike v v'" using a by (meson alike_trans)
  with f f' show "fst (discard (focus_window self) w) = fst (discard (focus_window self) w')
        \<and> alike (snd (discard (focus_window self) w)) (snd (discard (focus_window self) w'))"
    by (simp add: discard_def bindE_def ret_def)
qed

lemma heed_open_composer_loop [heed]: "heedless (open_composer_loop self n)"
  by (induction n) (simp_all add: heed)

lemma heed_steps [heed]:
  "heedless (open_composer self)"
  "heedless (new_session self)"
  "heedless (link_file self path)"
  "heedless (link_files self files)"
  "heedless (send_message self)"
  "heedless (input_prompt self prompt)"
  by (simp_all add: open_composer_def new_session_def link_file_def
        link_files_def send_message_def input_prompt_def heed is_window_call_def)

lemma seqE_bindE_run:
  "m w = (Inr x, v) \<Longrightarrow> n v = (Inr b, f) \<Longrightarrow> seqE m (bindE n g) w = g b f"
  by (simp add: seqE_def bindE_def)

text \<open>The workflow up to the wait, when its first focus attempt succeeds.\<close>

lemma before_wait_alike:
  assumes a: "alike w w'"
    and g: "fst (focus_window self
                  (snd (seqs [log Info ''starting the workflow'', open_project self, sleep 3000] w)))
            = Inr True"
    and g': "fst (focus_window self
                  (snd (seqs [log Info ''starting the workflow'', open_project self, sleep 3000] w')))
            = Inr True"
  shows "fst (before_wait self task files w) = fst (before_wait self task files w')
         \<and> alike (snd (before_wait self task files w)) (snd (before_wait self task files w'))"
proof -
  let ?P = "seqs [log Info ''starting the workflow'', open_project self, sleep 3000]"
  let ?G = "seqE (log Info ''step 1: open Composer'')
        (bindE (open_composer self) (\<lambda>composer_opened.
           if \<not> composer_opened
           then seqE (log Error ''cannot open Composer, workflow aborted'')
                  (ret (Some False))
           else
             seqE (seqs [sleep 1000,
                         log Info ''step 2: new session'',
                         discard (new_session self), sleep 1000,
                         log Info ''step 3: link files'',
                         link_files self files])
               (if task \<noteq> []
                then seqE (seqs [log Info ''step 4: enter the task prompt'',
                                 discard (focus_window self), sleep 1000,
                                 input_prompt self task,
                                 log Info ''step 5: wait for completion''])
                       (ret None)
                else ret (Some True))))"
  have hP: "heedless ?P" by (simp add: heed)
  have hG: "heedless ?G" by (simp add: heed)
  obtain r v where p: "?P w = (r, v)" by (cases "?P w")
  obtain r' v' where p': "?P w' = (r', v')" by (cases "?P w'")
  from heedlessD[OF hP a] p p' have e: "r' = r" and b: "alike v v'" by simp_all
  show ?thesis
  proof (cases r)
    case (Inl x)
    with p p' e b show ?thesis by (simp add: before_wait_def seqE_def bindE_def)
  next
    case (Inr x)
    obtain f where f: "focus_window self v = (Inr True, f)"
      using g p by (cases "focus_window self v") simp
    obtain f' where f': "focus_window self v' = (Inr True, f')"
      using g' p' by (cases "focus_window self v'") simp
    have "alike f v" using focus_window_alike[of v self] f by (simp add: alike_sym)
    moreover have "alike v' f'" using focus_window_alike[of v' self] f' by simp
    ultimately have ff: "alike f f'" using b by (meson alike_trans)
    from p Inr have q: "?P w = (Inr x, v)" by simp
    from p' e Inr have q': "?P w' = (Inr x, v')" by simp
    have l: "before_wait self task files w = ?G f"
      unfolding before_wait_def by (subst seqE_bindE_run[where m = ?P and n = "focus_window self", OF q f]) simp
    have l': "before_wait self task files w' = ?G f'"
      unfolding before_wait_def by (subst seqE_bindE_run[where m = ?P and n = "focus_window self", OF q' f']) simp
    show ?thesis unfolding l l' by (rule heedlessD[OF hG ff])
  qed
qed

text \<open>
  C5, as stated, fails. On a desktop where the window activates once, at the start, and
  never again, the run goes through steps 1 to 3: each step's focus attempt fails and is
  logged, its hotkeys are injected all the same, and the workflow returns True.
\<close>

theorem focus_failure_ignored_in_steps:
  "execute_workflow \<lparr>config = CONFIG Windows\<rparr> [] [] gate_only =
     (Inr True,
      gate_only
        \<lparr>captures := 1, window_calls := 5, os_calls := 1, clock := 18200,
          trace :=
            [Log Info ''starting the workflow'',
             Os (RunShell (CStr ''D:/fastapi-demo'')) True,
             Os (ActivateWindow (CStr ''fastapi-demo'')) True,
             Log Info ''step 1: open Composer'', Log Info ''opening Composer'',
             Os (ActivateWindow (CStr ''fastapi-demo'')) False,
             LogExc Error ''failed to activate the target window'' OSError,
             Input (KeyDown ''ctrl''), Input (Press ''i''), Input (KeyUp ''ctrl''),
             Capture 0, Log Info ''Composer opened'', Log Info ''step 2: new session'',
             Log Info ''creating a new session'',
             Os (ActivateWindow (CStr ''fastapi-demo'')) False,
             LogExc Error ''failed to activate the target window'' OSError,
             Input (KeyDown ''ctrl''), Input (Press ''n''), Input (KeyUp ''ctrl''),
             Os (ActivateWindow (CStr ''fastapi-demo'')) False,
             LogExc Error ''failed to activate the target window'' OSError,
             Input (Hotkey [''ctrl'', ''a'']), Input (Press ''delete''),
             Input (Press ''delete''), Log Info ''new session created'',
             Log Info ''step 3: link files'', Log Info ''linking files'',
             Os (ActivateWindow (CStr ''fastapi-demo'')) False,
             LogExc Error ''failed to activate the target window'' OSError]\<rparr>)"
  by (simp add: execute_workflow_def prog_defs step_defs sample_defs gate_only_def)

text \<open>
  C5, amended. The steps \<^verbatim>\<open>open_composer\<close>, \<^verbatim>\<open>new_session\<close> and \<^verbatim>\<open>link_files\<close> each
  begin, after their log line, with a focus attempt. The attempt injects no input and
  changes nothing but the count of window calls, the clock and its own events in the
  trace, and what it returns has no influence on the step: from two worlds that differ
  at most in how window activation goes (and in the clock), each of these steps gives
  the same result, and leaves the same captures, operating-system calls and trace apart
  from the focus attempts' own events. \<^verbatim>\<open>accept_changes\<close> injects its hotkey with no
  focus attempt. Of the focus attempts of the workflow up to the wait for completion only
  the first is checked: when it fails, the workflow logs an error and returns False, no
  input having been injected; when it succeeds, the run up to the wait is, in the same
  sense, the same however the later attempts go. The result is the bare False; no reason
  and no step is recorded in it.
\<close>

theorem focus_checked_at_gate_only:
  "(\<exists>rest. open_composer self =
       seqE (log Info ''opening Composer'') (bindE (focus_window self) (\<lambda>_. rest)))
   \<and> (\<exists>rest. new_session self =
       seqE (log Info ''creating a new session'') (bindE (focus_window self) (\<lambda>_. rest)))
   \<and> (\<exists>rest. link_files self files =
       seqE (log Info ''linking files'') (bindE (focus_window self) (\<lambda>_. rest)))
   \<and> inputs (snd (focus_window self w)) = inputs w
   \<and> alike w (snd (focus_window self w))
   \<and> (alike w w_alt \<longrightarrow>
        fst (open_composer self w) = fst (open_composer self w_alt)
        \<and> alike (snd (open_composer self w)) (snd (open_composer self w_alt))
        \<and> fst (new_session self w) = fst (new_session self w_alt)
        \<and> alike (snd (new_session self w)) (snd (new_session self w_alt))
        \<and> fst (link_files self files w) = fst (link_files self files w_alt)
        \<and> alike (snd (link_files self files w)) (snd (link_files self files w_alt)))
   \<and> accept_changes w =
       (Inr True, w\<lparr>trace := trace w @ [Input (Hotkey [ctrl_key (platform w), ''enter''])],
                    clock := clock w + 500\<rparr>)
   \<and> (seqs [log Info ''starting the workflow'', open_project self, sleep 3000] w = (Inr (), w_open) \<longrightarrow>
        focus_window self w_open = (Inr False, w_gate) \<longrightarrow>
          execute_workflow self task files w =
            (Inr False,
             w_gate\<lparr>trace := trace w_gate @ [Log Error ''cannot get the window focus, workflow aborted'']\<rparr>)
          \<and> inputs w_gate = inputs w)
   \<and> (alike d d_alt \<longrightarrow>
        fst (focus_window self
              (snd (seqs [log Info ''starting the workflow'', open_project self, sleep 3000] d)))
          = Inr True \<longrightarrow>
        fst (focus_window self
              (snd (seqs [log Info ''starting the workflow'', open_project self, sleep 3000] d_alt)))
          = Inr True \<longrightarrow>
          fst (before_wait self task files d) = fst (before_wait self task files d_alt)
          \<and> alike (snd (before_wait self task files d)) (snd (before_wait self task files d_alt)))"
proof (intro conjI impI)
  show "\<exists>rest. open_composer self =
       seqE (log Info ''opening Composer'') (bindE (focus_window self) (\<lambda>_. rest))"
    unfolding open_composer_def seqs.simps seqE_assoc seqE_discard seqE_bindE
    by (rule exI) (rule refl)
next
  show "\<exists>rest. new_session self =
       seqE (log Info ''creating a new session'') (bindE (focus_window self) (\<lambda>_. rest))"
    unfolding new_session_def seqs.simps seqE_assoc seqE_discard seqE_bindE
    by (rule exI) (rule refl)
next
  show "\<exists>rest. link_files self files =
       seqE (log Info ''linking files'') (bindE (focus_window self) (\<lambda>_. rest))"
    unfolding link_files_def seqs.simps seqE_assoc seqE_discard seqE_bindE
    by (rule exI) (rule refl)
next
  show "inputs (snd (focus_window self w)) = inputs w"
    using inputs_focus by (simp add: preserves_def)
next
  show "alike w (snd (focus_window self w))" by (rule focus_window_alike)
next
  assume "alike w w_alt"
  from heedlessD[OF heed_steps(1) this]
  show "fst (open_composer self w) = fst (open_composer self w_alt)" by simp
next
  assume "alike w w_alt"
  from heedlessD[OF heed_steps(1) this]
  show "alike (snd (open_composer self w)) (snd (open_composer self w_alt))" by simp
next
  assume "alike w w_alt"
  from heedlessD[OF heed_steps(2) this]
  show "fst (new_session self w) = fst (new_session self w_alt)" by simp
next
  assume "alike w w_alt"
  from heedlessD[OF heed_steps(2) this]
  show "alike (snd (new_session self w)) (snd (new_session self w_alt))" by simp
next
  assume "alike w w_alt"
  from heedlessD[OF heed_steps(4) this]
  show "fst (link_files self files w) = fst (link_files self files w_alt)" by simp
next
  assume "alike w w_alt"
  from heedlessD[OF heed_steps(4) this]
  show "alike (snd (link_files self files w)) (snd (link_files self files w_alt))" by simp
next
  show "accept_changes w =
       (Inr True, w\<lparr>trace := trace w @ [Input (Hotkey [ctrl_key (platform w), ''enter''])],
                    clock := clock w + 500\<rparr>)"
    by (simp add: accept_changes_def prog_defs)
next
  assume a: "seqs [log Info ''starting the workflow'', open_project self, sleep 3000] w = (Inr (), w_open)"
    and b: "focus_window self w_open = (Inr False, w_gate)"
  show "execute_workflow self task files w =
            (Inr False,
             w_gate\<lparr>trace := trace w_gate @ [Log Error ''cannot get the window focus, workflow aborted'']\<rparr>)"
    unfolding execute_workflow_def
    by (simp only: try_except_def seqE_def[of "seqs _"] bindE_def[of "seqs _"] a) 
       (simp add: bindE_def b seqE_def log_def emit_def ret_def)
next
  assume a: "seqs [log Info ''starting the workflow'', open_project self, sleep 3000] w = (Inr (), w_open)"
    and b: "focus_window self w_open = (Inr False, w_gate)"
  have "preserves inputs (seqs [log Info ''starting the workflow'', open_project self, sleep 3000])"
    by (intro keeps inputs_open_project)
  from preservesD[OF this a] have "inputs w_open = inputs w" .
  moreover from preservesD[OF inputs_focus b] have "inputs w_gate = inputs w_open" .
  ultimately show "inputs w_gate = inputs w" by simp
next
  assume "alike d d_alt"
    and "fst (focus_window self
              (snd (seqs [log Info ''starting the workflow'', open_project self, sleep 3000] d)))
          = Inr True"
    and "fst (focus_window self
              (snd (seqs [log Info ''starting the workflow'', open_project self, sleep 3000] d_alt)))
          = Inr True"
  from before_wait_alike[OF this]
  show "fst (before_wait self task files d) = fst (before_wait self task files d_alt)" by simp
next
  assume "alike d d_alt"
    and "fst (focus_window self
              (snd (seqs [log Info ''starting the workflow'', open_project self, sleep 3000] d)))
          = Inr True"
    and "fst (focus_window self
              (snd (seqs [log Info ''starting the workflow'', open_project self, sleep 3000] d_alt)))
          = Inr True"
  from before_wait_alike[OF this]
  show "alike (snd (before_wait self task files d)) (snd (before_wait self task files d_alt))"
    by simp
qed

theorem focus_checked_at_gate_only_witness:
  "alike no_window (desk Windows (\<lambda>k. sees 1))
   \<and> fst (open_composer \<lparr>config = CONFIG Windows\<rparr> no_window)
       = fst (open_composer \<lparr>config = CONFIG Windows\<rparr> (desk Windows (\<lambda>k. sees 1)))
   \<and> others (snd (new_session \<lparr>config = CONFIG Windows\<rparr> no_window))
       = others (snd (new_session \<lparr>config = CONFIG Windows\<rparr> (desk Windows (\<lambda>k. sees 1))))
   \<and> fst (link_files \<lparr>config = CONFIG Windows\<rparr> [''main.py''] no_window)
       = fst (link_files \<lparr>config = CONFIG Windows\<rparr> [''main.py''] (desk Windows (\<lambda>k. sees 1)))
   \<and> fst (seqs [log Info ''starting the workflow'', open_project \<lparr>config = CONFIG Windows\<rparr>,
              sleep 3000] no_window) = Inr ()
   \<and> fst (focus_window \<lparr>config = CONFIG Windows\<rparr>
            (snd (seqs [log Info ''starting the workflow'',
                        open_project \<lparr>config = CONFIG Windows\<rparr>, sleep 3000] no_window))) = Inr False
   \<and> fst (execute_workflow \<lparr>config = CONFIG Windows\<rparr> ''build the api'' [''main.py''] no_window)
       = Inr False
   \<and> inputs (snd (execute_workflow \<lparr>config = CONFIG Windows\<rparr> ''build the api'' [''main.py'']
                    no_window)) = []
   \<and> alike (desk Windows (\<lambda>k. sees 1)) gate_only
   \<and> fst (focus_window \<lparr>config = CONFIG Windows\<rparr>
            (snd (seqs [log Info ''starting the workflow'',
                        open_project \<lparr>config = CONFIG Windows\<rparr>, sleep 3000]
                    (desk Windows (\<lambda>k. sees 1))))) = Inr True
   \<and> fst (focus_window \<lparr>config = CONFIG Windows\<rparr>
            (snd (seqs [log Info ''starting the workflow'',
                        open_project \<lparr>config = CONFIG Windows\<rparr>, sleep 3000] gate_only))) = Inr True
   \<and> fst (before_wait \<lparr>config = CONFIG Windows\<rparr> ''build the api'' [''main.py'']
            (desk Windows (\<lambda>k. sees 1)))
       = fst (before_wait \<lparr>config = CONFIG Windows\<rparr> ''build the api'' [''main.py''] gate_only)
   \<and> others (snd (before_wait \<lparr>config = CONFIG Windows\<rparr> ''build the api'' [''main.py'']
                    (desk Windows (\<lambda>k. sees 1))))
       = others (snd (before_wait \<lparr>config = CONFIG Windows\<rparr> ''build the api'' [''main.py'']
                       gate_only))"
proof -
  let ?self = "\<lparr>config = CONFIG Windows\<rparr>"
  let ?desk = "desk Windows (\<lambda>k. sees 1)"
  let ?a = "seqs [log Info ''starting the workflow'', open_project ?self, sleep 3000] no_window"
  let ?b = "focus_window ?self (snd ?a)"
  have k: "alike no_window ?desk"
    by (simp add: alike_def others_def no_window_def desk_def)
  have k': "alike ?desk gate_only"
    by (simp add: alike_def others_def gate_only_def desk_def)
  have fa: "fst ?a = Inr ()"
    by (simp add: prog_defs step_defs sample_defs no_window_def)
  have fb: "fst ?b = Inr False"
    by (simp add: prog_defs step_defs sample_defs no_window_def)
  have g: "fst (focus_window ?self
            (snd (seqs [log Info ''starting the workflow'', open_project ?self, sleep 3000]
                    ?desk))) = Inr True"
    by (simp add: prog_defs step_defs sample_defs)
  have g': "fst (focus_window ?self
            (snd (seqs [log Info ''starting the workflow'', open_project ?self, sleep 3000]
                    gate_only))) = Inr True"
    by (simp add: prog_defs step_defs sample_defs gate_only_def)
  have a: "?a = (Inr (), snd ?a)" using fa by (metis prod.collapse)
  have b: "?b = (Inr False, snd ?b)" using fb by (metis prod.collapse)
  have i: "inputs no_window = []" by (simp add: inputs_def no_window_def desk_def)
  note T = focus_checked_at_gate_only[where self = ?self and files = "[''main.py'']"
      and w = no_window and w_alt = ?desk and w_open = "snd ?a" and w_gate = "snd ?b"
      and task = "''build the api''" and d = ?desk and d_alt = gate_only]
  from T k have s1: "fst (open_composer ?self no_window) = fst (open_composer ?self ?desk)"
    and s2: "alike (snd (new_session ?self no_window)) (snd (new_session ?self ?desk))"
    and s3: "fst (link_files ?self [''main.py''] no_window)
             = fst (link_files ?self [''main.py''] ?desk)"
    by blast+
  from T a b
  have e: "execute_workflow ?self ''build the api'' [''main.py''] no_window =
          (Inr False,
           (snd ?b)\<lparr>trace := trace (snd ?b) @ [Log Error ''cannot get the window focus, workflow aborted'']\<rparr>)"
    and j: "inputs (snd ?b) = inputs no_window" by blast+
  from T k' g g'
  have t1: "fst (before_wait ?self ''build the api'' [''main.py''] ?desk)
            = fst (before_wait ?self ''build the api'' [''main.py''] gate_only)"
    and t2: "alike (snd (before_wait ?self ''build the api'' [''main.py''] ?desk))
               (snd (before_wait ?self ''build the api'' [''main.py''] gate_only))"
    by blast+
  from e j i have e1: "fst (execute_workflow ?self ''build the api'' [''main.py''] no_window) = Inr False"
    and e2: "inputs (snd (execute_workflow ?self ''build the api'' [''main.py''] no_window)) = []"
    by (simp_all add: inputs_def is_input_def)
  from s2 have s2': "others (snd (new_session ?self no_window)) = others (snd (new_session ?self ?desk))"
    by (simp add: alike_def)
  from t2 have t2': "others (snd (before_wait ?self ''build the api'' [''main.py''] ?desk))
       = others (snd (before_wait ?self ''build the api'' [''main.py''] gate_only))"
    by (simp add: alike_def)
  show ?thesis
    by (intro conjI k k' s1 s2' s3 fa fb e1 e2 g g' t1 t2')
qed

section \<open>Sending the message\<close>

lemma returns_bindE: "returns m \<Longrightarrow> (\<And>x. returns (f x)) \<Longrightarrow> returns (bindE m f)"
  unfolding returns_def bindE_def
  by (auto split: prod.splits sum.splits) (metis fst_conv sum.distinct(1))

lemma returns_prims:
  "returns (ret x)" "returns (emit e)" "returns (log lv msg)" "returns (logexc lv msg ex)"
  "returns (pyautogui g)" "returns (pyperclip_copy s)" "returns (sleep ms)"
  "returns platform_system" "returns time_time"
  by (simp_all add: returns_def ret_def emit_def log_def logexc_def pyautogui_def
        pyperclip_copy_def sleep_def platform_system_def time_time_def)

lemma returns_seqE: "returns m \<Longrightarrow> returns n \<Longrightarrow> returns (seqE m n)"
  by (simp add: seqE_def returns_bindE)

lemma returns_discard: "returns m \<Longrightarrow> returns (discard m)"
  by (simp add: discard_def returns_bindE returns_prims)

lemma returns_seqs: "returns (seqs [])" "returns m \<Longrightarrow> returns (seqs ms) \<Longrightarrow> returns (seqs (m # ms))"
  by (simp_all add: returns_seqE returns_prims)

lemma returns_if: "returns a \<Longrightarrow> returns b \<Longrightarrow> returns (if c then a else b)"
  by simp

lemmas returns_intros = returns_bindE returns_prims returns_seqE returns_discard returns_seqs
  returns_if

text \<open>
  Whatever the configuration and the world, \<^verbatim>\<open>send_message\<close> does not return False: it
  returns True, or the lookup of the send button's template raises before anything is
  tried.
\<close>

lemma send_message_never_False: "fst (send_message self w) \<noteq> Inr False"
proof (cases "lookup2 (config self) ''ui_elements'' ''send_button''")
  case (Inl e)
  then show ?thesis
    by (simp add: send_message_def seqE_def bindE_def lift_def log_def emit_def)
next
  case (Inr p)
  let ?w0 = "w\<lparr>trace := trace w @ [Log Info ''clicking the send button'']\<rparr>"
  have "fst (safe_click p 3 ?w0) \<in> {Inr True, Inr False}"
    unfolding safe_click_def by (rule safe_click_loop_returns)
  then obtain clicked w' where "safe_click p 3 ?w0 = (Inr clicked, w')"
    by (cases "safe_click p 3 ?w0") auto
  with Inr show ?thesis
    by (simp add: send_message_def seqE_def bindE_def lift_def log_def emit_def ret_def
          pyautogui_def sleep_def platform_system_def)
qed

text \<open>
  C10, as stated, fails. A configuration without the send button's template passes the
  constructor's check. On it \<^verbatim>\<open>send_message\<close> returns nothing: the lookup of the template
  raises KeyError before either tier runs, \<^verbatim>\<open>input_prompt\<close> passes the exception on, and
  the workflow, which has gone through steps 1 to 3 and typed the prompt, logs the
  failure and returns False.
\<close>

theorem send_message_without_template:
  "ComposerAutomator_init no_send_button = Inr \<lparr>config = no_send_button\<rparr>
   \<and> send_message \<lparr>config = no_send_button\<rparr> (desk Windows (\<lambda>k. sees 1)) =
       (Inl (KeyError ''send_button''),
        (desk Windows (\<lambda>k. sees 1))\<lparr>trace := [Log Info ''clicking the send button'']\<rparr>)
   \<and> fst (input_prompt \<lparr>config = no_send_button\<rparr> ''build the api'' (desk Windows (\<lambda>k. sees 1)))
       = Inl (KeyError ''send_button'')
   \<and> fst (execute_workflow \<lparr>config = no_send_button\<rparr> ''build the api'' []
            (desk Windows (\<lambda>k. sees 1))) = Inr False
   \<and> drop 32 (trace (snd (execute_workflow \<lparr>config = no_send_button\<rparr> ''build the api'' []
                             (desk Windows (\<lambda>k. sees 1))))) =
       [Log Info ''clicking the send button'',
        LogExc Error ''workflow failed'' (KeyError ''send_button''),
        Log Error ''traceback'']"
proof (intro conjI)
  show "ComposerAutomator_init no_send_button = Inr \<lparr>config = no_send_button\<rparr>"
    by (simp add: ComposerAutomator_init_def validate_config_def required_keys_def
          no_send_button_def Let_def)
  show "send_message \<lparr>config = no_send_button\<rparr> (desk Windows (\<lambda>k. sees 1)) =
       (Inl (KeyError ''send_button''),
        (desk Windows (\<lambda>k. sees 1))\<lparr>trace := [Log Info ''clicking the send button'']\<rparr>)"
    by (simp add: send_message_def prog_defs no_send_button_def desk_def)
  show "fst (input_prompt \<lparr>config = no_send_button\<rparr> ''build the api'' (desk Windows (\<lambda>k. sees 1)))
       = Inl (KeyError ''send_button'')"
    by (simp add: prog_defs step_defs sample_defs no_send_button_def)
  show "fst (execute_workflow \<lparr>config = no_send_button\<rparr> ''build the api'' []
            (desk Windows (\<lambda>k. sees 1))) = Inr False"
    by (simp add: execute_workflow_def prog_defs step_defs sample_defs no_send_button_def)
  show "drop 32 (trace (snd (execute_workflow \<lparr>config = no_send_button\<rparr> ''build the api'' []
                             (desk Windows (\<lambda>k. sees 1))))) =
       [Log Info ''clicking the send button'',
        LogExc Error ''workflow failed'' (KeyError ''send_button''),
        Log Error ''traceback'']"
    by (simp add: execute_workflow_def prog_defs step_defs sample_defs no_send_button_def)
qed

text \<open>
  C10, amended. With the send button's template configured, \<^verbatim>\<open>send_message\<close> returns
  True in every world, that is for every outcome of the click and of the hotkey: when the
  click fails, the hotkey is injected, half a second passes and True is returned, with no
  capture after the hotkey. \<^verbatim>\<open>input_prompt\<close>, which calls it, drops the result and
  returns normally: the step cannot tell the workflow that sending failed.
\<close>

theorem send_message_always_true:
  assumes "lookup2 (config self) ''ui_elements'' ''send_button'' = Inr p"
  shows "fst (send_message self w) = Inr True
    \<and> (safe_click p 3 (w\<lparr>trace := trace w @ [Log Info ''clicking the send button'']\<rparr>) = (Inr False, w1) \<longrightarrow>
         send_message self w =
           (Inr True,
            w1\<lparr>trace := trace w1 @
                   [Log Info ''trying to send with the hotkey'',
                    Input (Hotkey (if platform w1 = Darwin then [''command'', ''enter'']
                                   else [''ctrl'', ''enter'']))],
               clock := clock w1 + 500\<rparr>))
    \<and> fst (input_prompt self prompt w) = Inr ()"
proof -
  have sm: "send_message self w =
      (if clicked then (Inr True, w'\<lparr>trace := trace w' @ [Log Info ''send button clicked'']\<rparr>)
       else (Inr True,
             w'\<lparr>trace := trace w' @
                    [Log Info ''trying to send with the hotkey'',
                     Input (Hotkey (if platform w' = Darwin then [''command'', ''enter'']
                                    else [''ctrl'', ''enter'']))],
                clock := clock w' + 500\<rparr>))"
    if "safe_click p 3 (w\<lparr>trace := trace w @ [Log Info ''clicking the send button'']\<rparr>) =
          (Inr clicked, w')" for w clicked w'
    using assms that
    by (simp add: send_message_def seqE_def bindE_def lift_def log_def emit_def ret_def
          pyautogui_def sleep_def platform_system_def)
  have 1: "fst (send_message self w) = Inr True" for w
  proof -
    let ?w0 = "w\<lparr>trace := trace w @ [Log Info ''clicking the send button'']\<rparr>"
    have "fst (safe_click p 3 ?w0) \<in> {Inr True, Inr False}"
      unfolding safe_click_def by (rule safe_click_loop_returns)
    then obtain clicked where "safe_click p 3 ?w0 = (Inr clicked, snd (safe_click p 3 ?w0))"
      by (cases "safe_click p 3 ?w0") auto
    from sm[OF this] show ?thesis by simp
  qed
  have 2: "safe_click p 3 (w\<lparr>trace := trace w @ [Log Info ''clicking the send button'']\<rparr>) =
             (Inr False, w1) \<longrightarrow>
         send_message self w =
           (Inr True,
            w1\<lparr>trace := trace w1 @
                   [Log Info ''trying to send with the hotkey'',
                    Input (Hotkey (if platform w1 = Darwin then [''command'', ''enter'']
                                   else [''ctrl'', ''enter'']))],
               clock := clock w1 + 500\<rparr>)"
    using sm[of w False w1] by simp
  have 3: "fst (input_prompt self prompt w) = Inr ()"
  proof -
    have "returns (send_message self)" unfolding returns_def using 1 by blast
    then have "returns (input_prompt self prompt)"
      by (simp add: input_prompt_def input_text_def returns_intros)
    then show ?thesis by (simp add: returns_def)
  qed
  from 1 2 3 show ?thesis by blast
qed

theorem send_message_always_true_witness:
  "lookup2 (config \<lparr>config = CONFIG Windows\<rparr>) ''ui_elements'' ''send_button'' =
     Inr (CStr ''./images/windows/send_button.png'')
   \<and> fst (safe_click (CStr ''./images/windows/send_button.png'') 3
            ((desk Windows (\<lambda>k. sees (5 / 10)))
               \<lparr>trace := trace (desk Windows (\<lambda>k. sees (5 / 10))) @
                           [Log Info ''clicking the send button'']\<rparr>)) = Inr False
   \<and> fst (send_message \<lparr>config = CONFIG Windows\<rparr> (desk Windows (\<lambda>k. sees (5 / 10)))) = Inr True
   \<and> last (trace (snd (send_message \<lparr>config = CONFIG Windows\<rparr> (desk Windows (\<lambda>k. sees (5 / 10)))))) =
       Input (Hotkey [''ctrl'', ''enter''])"
proof -
  let ?self = "\<lparr>config = CONFIG Windows\<rparr>" and ?p = "CStr ''./images/windows/send_button.png''"
  let ?w = "desk Windows (\<lambda>k. sees (5 / 10))"
  let ?c = "safe_click ?p 3 (?w\<lparr>trace := trace ?w @ [Log Info ''clicking the send button'']\<rparr>)"
  have l: "lookup2 (config ?self) ''ui_elements'' ''send_button'' = Inr ?p"
    by (simp add: lookup2_def lookup_def CONFIG_def)
  have fc: "fst ?c = Inr False"
    by (simp add: prog_defs step_defs sample_defs)
  have pc: "platform (snd ?c) = Windows"
    by (simp add: prog_defs step_defs sample_defs)
  have c: "?c = (Inr False, snd ?c)" using fc by (metis prod.collapse)
  from send_message_always_true[OF l, of ?w "snd ?c"] c
  have "send_message ?self ?w =
           (Inr True,
            (snd ?c)\<lparr>trace := trace (snd ?c) @
                   [Log Info ''trying to send with the hotkey'',
                    Input (Hotkey (if platform (snd ?c) = Darwin then [''command'', ''enter'']
                                   else [''ctrl'', ''enter'']))],
               clock := clock (snd ?c) + 500\<rparr>)"
    by blast
  with l fc pc show ?thesis by simp
qed

end
